theory Spec2Isabelle
  imports Main "HOL-Library.Word" "HOL-Library.Numeral_Type"
begin

section \<open>Byte strings and big integers\<close>

text \<open>
  Go's \<^verbatim>\<open>[]byte\<close> is a list of 8-bit words; \<^verbatim>\<open>len(b) == 0\<close> holds of the nil
  slice and of the empty slice alike, and the sources only ever test the length.
  \<^verbatim>\<open>*big.Int\<close> is an unbounded integer.
\<close>

type_synonym byte = "8 word"
type_synonym bytes = "byte list"

text \<open>\<^verbatim>\<open>new(big.Int).SetBytes(buf)\<close>: the bytes read as a big-endian unsigned integer.\<close>

definition SetBytes :: "bytes \<Rightarrow> int" where
  "SetBytes buf = foldl (\<lambda>acc b. acc * 256 + uint b) 0 buf"

text \<open>\<^verbatim>\<open>x.Bytes()\<close>: the absolute value of x as a big-endian byte string without
  leading zero bytes (the empty string for 0).\<close>

fun nat_Bytes :: "nat \<Rightarrow> bytes" where
  "nat_Bytes n = (if n = 0 then [] else nat_Bytes (n div 256) @ [of_nat (n mod 256)])"

declare nat_Bytes.simps [simp del]

definition Bytes :: "int \<Rightarrow> bytes" where
  "Bytes x = nat_Bytes (nat \<bar>x\<bar>)"

section \<open>Errors and panics\<close>

text \<open>
  An \<^verbatim>\<open>error\<close> value is built by \<^verbatim>\<open>errors.New\<close> or \<^verbatim>\<open>errors.Wrap\<close>; the nil error is
  \<open>None\<close> of \<open>error option\<close>. A panic ends the call: a function that can panic returns
  \<open>panic + 'a\<close>, with \<open>Inl\<close> for the panic.
\<close>

datatype error = errors_New string | errors_Wrap error string

datatype panic = panic_bytes bytes | panic_error error | panic_no_inverse

section \<open>Messages\<close>

record keypair =
  PublicKey :: bytes
  PrivateKey :: bytes

record ProofOfSuccess =
  pos_Term1 :: bytes
  pos_Term2 :: bytes
  pos_Term3 :: bytes
  BlindX :: bytes

record ProofOfFail =
  pof_Term1 :: bytes
  pof_Term2 :: bytes
  pof_Term3 :: bytes
  pof_Term4 :: bytes
  BlindA :: bytes
  BlindB :: bytes

record EnrollmentResponse =
  enr_NS :: bytes
  enr_C0 :: bytes
  enr_C1 :: bytes
  enr_Proof :: "ProofOfSuccess option"

record EnrollmentRecord =
  rec_NS :: bytes
  rec_NC :: bytes
  rec_T0 :: bytes
  rec_T1 :: bytes

record VerifyPasswordRequest =
  req_NS :: bytes
  req_C0 :: bytes

record VerifyPasswordResponse =
  Res :: bool
  resp_C1 :: bytes
  ProofSuccess :: "ProofOfSuccess option"
  ProofFail :: "ProofOfFail option"

record UpdateToken =
  tok_A :: bytes
  tok_B :: bytes

section \<open>The primitives the sources call\<close>

text \<open>
  The sources fix \<^verbatim>\<open>curve = elliptic.P256()\<close> and call the curve's group operations
  through the type \<^verbatim>\<open>Point\<close>, the hash functions \<^verbatim>\<open>hashToPoint\<close> and \<^verbatim>\<open>hashZ\<close>, HKDF and
  the key pair codec. None of these is defined in the three source files. Points are the
  elements of an additive abelian group \<open>'p\<close> (\<^verbatim>\<open>Add\<close> is \<open>+\<close>, \<^verbatim>\<open>Neg\<close> is unary minus,
  \<^verbatim>\<open>Equal\<close> is equality, the point at infinity is \<open>0\<close>), and everything else is a
  field of the record below, passed to every function that uses it.

  \<^item> \<open>curve_N\<close>: \<^verbatim>\<open>curve.Params().N\<close>, the group order.
  \<^item> \<open>curveG\<close>: the base point.
  \<^item> \<open>Marshal\<close>, \<open>PointUnmarshal\<close>: the point codec.
  \<^item> \<open>hashToPoint tag fields\<close>, \<open>hashZ tag fields\<close>: the two domain-separated hashes.
  \<^item> \<open>hkdf_Secret ikm\<close>: the 32 bytes read from
    \<^verbatim>\<open>hkdf.New(sha512.New512_256, ikm, nil, []byte("Secret"))\<close>. A first read of 32 bytes
    is below HKDF's output limit, so the read returns no error.
  \<^item> \<open>marshalKeypair\<close>, \<open>unmarshalKeypair\<close>: the server key pair codec.
\<close>

record 'p primitives =
  curve_N :: int
  curveG :: 'p
  Marshal :: "'p \<Rightarrow> bytes"
  PointUnmarshal :: "bytes \<Rightarrow> error + 'p"
  hashToPoint :: "bytes \<Rightarrow> bytes list \<Rightarrow> 'p"
  hashZ :: "bytes \<Rightarrow> bytes list \<Rightarrow> int"
  hkdf_Secret :: "bytes \<Rightarrow> bytes"
  marshalKeypair :: "bytes \<Rightarrow> bytes \<Rightarrow> error + bytes"
  unmarshalKeypair :: "bytes \<Rightarrow> error + keypair"

text \<open>Modelled from the spec: the domain tags, which the sources use and do not define
  (single bytes: dhc0=0x00, dhc1=0x01, dhs0=0x02, dhs1=0x03, dm=0x04, proofOk=0x05,
  proofError=0x06).\<close>

definition dhc0 :: bytes where "dhc0 = [0x00]"
definition dhc1 :: bytes where "dhc1 = [0x01]"
definition dhs0 :: bytes where "dhs0 = [0x02]"
definition dhs1 :: bytes where "dhs1 = [0x03]"
definition dm :: bytes where "dm = [0x04]"
definition proofOk :: bytes where "proofOk = [0x05]"
definition proofError :: bytes where "proofError = [0x06]"

subsection \<open>Point arithmetic\<close>

text \<open>\<open>nsmul k p\<close> is p added to itself k times.\<close>

fun nsmul :: "nat \<Rightarrow> 'p::ab_group_add \<Rightarrow> 'p" where
  "nsmul 0 p = 0"
| "nsmul (Suc k) p = p + nsmul k p"

text \<open>Modelled from the spec: the methods of \<^verbatim>\<open>Point\<close> that multiply by a scalar
  (\<^verbatim>\<open>ScalarMult(P, k)\<close>, k big-endian bytes interpreted mod n; \<^verbatim>\<open>ScalarBaseMult(k)\<close>), and
  their variants that take a \<^verbatim>\<open>*big.Int\<close>.\<close>

definition ScalarMult :: "'p::ab_group_add primitives \<Rightarrow> 'p \<Rightarrow> bytes \<Rightarrow> 'p" where
  "ScalarMult cv p k = nsmul (nat (SetBytes k mod curve_N cv)) p"

definition ScalarMultInt :: "'p::ab_group_add primitives \<Rightarrow> 'p \<Rightarrow> int \<Rightarrow> 'p" where
  "ScalarMultInt cv p k = ScalarMult cv p (Bytes k)"

definition ScalarBaseMult :: "'p::ab_group_add primitives \<Rightarrow> bytes \<Rightarrow> 'p" where
  "ScalarBaseMult cv k = ScalarMult cv (curveG cv) k"

definition ScalarBaseMultInt :: "'p::ab_group_add primitives \<Rightarrow> int \<Rightarrow> 'p" where
  "ScalarBaseMultInt cv k = ScalarBaseMult cv (Bytes k)"

subsection \<open>The scalar field gf\<close>

text \<open>Modelled from the spec: \<^verbatim>\<open>gf\<close>, the operations modulo n (Add, Mul, Neg, Inv by
  the extended Euclidean algorithm), on scalars or on big-endian byte strings, with
  results in canonical form. Inv of a scalar with no inverse fails: \<open>None\<close>.\<close>

definition gf_Add :: "'p primitives \<Rightarrow> int \<Rightarrow> int \<Rightarrow> int" where
  "gf_Add cv a b = (a + b) mod curve_N cv"

definition gf_Mul :: "'p primitives \<Rightarrow> int \<Rightarrow> int \<Rightarrow> int" where
  "gf_Mul cv a b = (a * b) mod curve_N cv"

definition gf_Neg :: "'p primitives \<Rightarrow> int \<Rightarrow> int" where
  "gf_Neg cv a = (- a) mod curve_N cv"

definition gf_AddBytes :: "'p primitives \<Rightarrow> bytes \<Rightarrow> int \<Rightarrow> int" where
  "gf_AddBytes cv a b = gf_Add cv (SetBytes a) b"

definition gf_MulBytes :: "'p primitives \<Rightarrow> bytes \<Rightarrow> int \<Rightarrow> int" where
  "gf_MulBytes cv a b = gf_Mul cv (SetBytes a) b"

definition gf_Inv :: "'p primitives \<Rightarrow> int \<Rightarrow> int option" where
  "gf_Inv cv a =
     (let r = a mod curve_N cv in
      if gcd r (curve_N cv) = 1
      then Some (fst (bezw (nat r) (nat (curve_N cv))) mod curve_N cv)
      else None)"

section \<open>Random scalars\<close>

text \<open>
  \<^verbatim>\<open>RandomZ\<close> reads 32 bytes from \<^verbatim>\<open>rand.Reader\<close> in a loop \<^verbatim>\<open>for z == nil\<close>. The reader is
  the sequence \<open>rd\<close> of the blocks it delivers: \<open>rd i\<close> is what the i-th
  \<^verbatim>\<open>io.ReadFull(rand.Reader, priv)\<close> of the call leaves in \<^verbatim>\<open>priv\<close>. The loop state is the
  number of reads so far and \<^verbatim>\<open>z\<close>.

  \<^verbatim>\<open>
      for z == nil {
          io.ReadFull(rand.Reader, priv)
          // If the scalar is out of range, sample another random number.
          if new(big.Int).SetBytes(priv).Cmp(curve.Params().N) >= 0 {
              panic(priv)
          } else {
              z = priv          // utils.go; the other file: z = new(big.Int).SetBytes(priv)
          }
      }
      return
  \<close>
\<close>

type_synonym reader = "nat \<Rightarrow> bytes"

function RandomZ_bytes_loop :: "int \<Rightarrow> reader \<Rightarrow> nat \<Rightarrow> bytes option \<Rightarrow> panic + bytes" where
  "RandomZ_bytes_loop n rd i z =
     (case z of
        Some v \<Rightarrow> Inr v
      | None \<Rightarrow>
          (let priv = rd i in
           if SetBytes priv \<ge> n then Inl (panic_bytes priv)
           else RandomZ_bytes_loop n rd (Suc i) (Some priv)))"
  by pat_completeness auto
termination
  by (relation "measure (\<lambda>(n, rd, i, z). case z of None \<Rightarrow> 1 | Some v \<Rightarrow> 0)") auto

function RandomZ_loop :: "int \<Rightarrow> reader \<Rightarrow> nat \<Rightarrow> int option \<Rightarrow> panic + int" where
  "RandomZ_loop n rd i z =
     (case z of
        Some v \<Rightarrow> Inr v
      | None \<Rightarrow>
          (let priv = rd i in
           if SetBytes priv \<ge> n then Inl (panic_bytes priv)
           else RandomZ_loop n rd (Suc i) (Some (SetBytes priv))))"
  by pat_completeness auto
termination
  by (relation "measure (\<lambda>(n, rd, i, z). case z of None \<Rightarrow> 1 | Some v \<Rightarrow> 0)") auto

text \<open>\<^verbatim>\<open>RandomZ\<close> of utils.go, which returns the bytes.\<close>

definition RandomZ_bytes :: "'p primitives \<Rightarrow> reader \<Rightarrow> panic + bytes" where
  "RandomZ_bytes cv rd = RandomZ_bytes_loop (curve_N cv) rd 0 None"

text \<open>\<^verbatim>\<open>RandomZ\<close> of the second file, which returns a \<^verbatim>\<open>*big.Int\<close>.\<close>

definition RandomZ :: "'p primitives \<Rightarrow> reader \<Rightarrow> panic + int" where
  "RandomZ cv rd = RandomZ_loop (curve_N cv) rd 0 None"

text \<open>Modelled from the spec: \<^verbatim>\<open>randomZ()\<close>, which server.go calls for every scalar it
  draws and which no source file defines. The spec: "draw 32 uniform bytes; reject if
  \<ge> n; retry". The loop reads block after block from the reader and returns the first
  value below n; a call on a reader that delivers no such block does not return, which
  is the value \<open>None\<close>. It differs from the two \<^verbatim>\<open>RandomZ\<close> above on a draw of n or more,
  where they panic.\<close>

partial_function (option) randomZ_loop :: "int \<Rightarrow> reader \<Rightarrow> nat \<Rightarrow> int option" where
  "randomZ_loop n rd i =
     (let priv = rd i in
      if SetBytes priv \<ge> n then randomZ_loop n rd (Suc i)
      else Some (SetBytes priv))"

definition randomZ :: "'p primitives \<Rightarrow> reader \<Rightarrow> int option" where
  "randomZ cv rd = randomZ_loop (curve_N cv) rd 0"

text \<open>The order of the curve the sources fix, P-256.\<close>

definition P256_N :: int where
  "P256_N = 115792089210356248762697446949407573529996955224135760342422259061068512044369"

section \<open>Message decoding\<close>

text \<open>Modelled from the spec: the \<^verbatim>\<open>parse\<close> methods of the messages, which the sources
  call and do not define. Every point field decodes via \<^verbatim>\<open>PointUnmarshal\<close>, every scalar
  field is read as big-endian bytes, and a missing (nil) message does not decode.\<close>

definition ProofOfSuccess_parse ::
  "'p primitives \<Rightarrow> ProofOfSuccess option \<Rightarrow> error + ('p \<times> 'p \<times> 'p \<times> int)" where
  "ProofOfSuccess_parse cv prf =
     (case prf of
        None \<Rightarrow> Inl (errors_New ''invalid proof'')
      | Some p \<Rightarrow>
          (case PointUnmarshal cv (pos_Term1 p) of Inl e \<Rightarrow> Inl e | Inr term1 \<Rightarrow>
          (case PointUnmarshal cv (pos_Term2 p) of Inl e \<Rightarrow> Inl e | Inr term2 \<Rightarrow>
          (case PointUnmarshal cv (pos_Term3 p) of Inl e \<Rightarrow> Inl e | Inr term3 \<Rightarrow>
             Inr (term1, term2, term3, SetBytes (BlindX p))))))"

definition ProofOfFail_parse ::
  "'p primitives \<Rightarrow> ProofOfFail option \<Rightarrow> error + ('p \<times> 'p \<times> 'p \<times> 'p \<times> int \<times> int)" where
  "ProofOfFail_parse cv prf =
     (case prf of
        None \<Rightarrow> Inl (errors_New ''invalid proof'')
      | Some p \<Rightarrow>
          (case PointUnmarshal cv (pof_Term1 p) of Inl e \<Rightarrow> Inl e | Inr term1 \<Rightarrow>
          (case PointUnmarshal cv (pof_Term2 p) of Inl e \<Rightarrow> Inl e | Inr term2 \<Rightarrow>
          (case PointUnmarshal cv (pof_Term3 p) of Inl e \<Rightarrow> Inl e | Inr term3 \<Rightarrow>
          (case PointUnmarshal cv (pof_Term4 p) of Inl e \<Rightarrow> Inl e | Inr term4 \<Rightarrow>
             Inr (term1, term2, term3, term4, SetBytes (BlindA p), SetBytes (BlindB p)))))))"

definition EnrollmentRecord_parse ::
  "'p primitives \<Rightarrow> EnrollmentRecord option \<Rightarrow> error + ('p \<times> 'p)" where
  "EnrollmentRecord_parse cv rec =
     (case rec of
        None \<Rightarrow> Inl (errors_New ''invalid record'')
      | Some r \<Rightarrow>
          (case PointUnmarshal cv (rec_T0 r) of Inl e \<Rightarrow> Inl e | Inr t0 \<Rightarrow>
          (case PointUnmarshal cv (rec_T1 r) of Inl e \<Rightarrow> Inl e | Inr t1 \<Rightarrow>
             Inr (t0, t1))))"

definition UpdateToken_parse :: "UpdateToken option \<Rightarrow> error + (int \<times> int)" where
  "UpdateToken_parse token =
     (case token of
        None \<Rightarrow> Inl (errors_New ''invalid token'')
      | Some t \<Rightarrow> Inr (SetBytes (tok_A t), SetBytes (tok_B t)))"

section \<open>The server (server.go)\<close>

text \<open>
  Every call of \<^verbatim>\<open>randomZ()\<close> is given the reader it draws from, and every
  \<^verbatim>\<open>rand.Read(buf)\<close> its result: the error, or the bytes left in the buffer. A function
  with the results \<^verbatim>\<open>(x, err)\<close> returns the pair of both, each of them \<open>None\<close> when nil.
  A function that draws scalars returns an option: \<open>Some\<close> of its results, or \<open>None\<close>
  when one of its \<^verbatim>\<open>randomZ()\<close> does not return.
\<close>

definition GenerateServerKeypair ::
  "'p::ab_group_add primitives \<Rightarrow> reader \<Rightarrow> (error + bytes) option" where
  "GenerateServerKeypair cv rd =
     (case randomZ cv rd of
        None \<Rightarrow> None
      | Some z \<Rightarrow>
          (let privateKey = Bytes z;
               publicKey = ScalarBaseMult cv privateKey
           in Some (marshalKeypair cv (Marshal cv publicKey) privateKey)))"

definition eval_kp ::
  "'p::ab_group_add primitives \<Rightarrow> keypair \<Rightarrow> bytes \<Rightarrow> 'p \<times> 'p \<times> 'p \<times> 'p" where
  "eval_kp cv kp ns =
     (let hs0 = hashToPoint cv dhs0 [ns];
          hs1 = hashToPoint cv dhs1 [ns];
          c0 = ScalarMult cv hs0 (PrivateKey kp);
          c1 = ScalarMult cv hs1 (PrivateKey kp)
      in (hs0, hs1, c0, c1))"

definition proveSuccess ::
  "'p::ab_group_add primitives \<Rightarrow> keypair \<Rightarrow> 'p \<Rightarrow> 'p \<Rightarrow> 'p \<Rightarrow> 'p \<Rightarrow> reader
     \<Rightarrow> ProofOfSuccess option" where
  "proveSuccess cv kp hs0 hs1 c0 c1 rd =
     (case randomZ cv rd of
        None \<Rightarrow> None
      | Some blindX \<Rightarrow>
          (let term1 = ScalarMult cv hs0 (Bytes blindX);
               term2 = ScalarMult cv hs1 (Bytes blindX);
               term3 = ScalarBaseMult cv (Bytes blindX);
               challenge = hashZ cv proofOk
                 [PublicKey kp, Marshal cv (curveG cv), Marshal cv c0, Marshal cv c1,
                  Marshal cv term1, Marshal cv term2, Marshal cv term3];
               res = gf_Add cv blindX (gf_MulBytes cv (PrivateKey kp) challenge)
           in Some \<lparr>pos_Term1 = Marshal cv term1, pos_Term2 = Marshal cv term2,
                   pos_Term3 = Marshal cv term3, BlindX = Bytes res\<rparr>))"

definition GetEnrollment ::
  "'p::ab_group_add primitives \<Rightarrow> bytes \<Rightarrow> error + bytes \<Rightarrow> reader
     \<Rightarrow> (EnrollmentResponse option \<times> error option) option" where
  "GetEnrollment cv serverKeypair ns_read rd =
     (case unmarshalKeypair cv serverKeypair of
        Inl err \<Rightarrow> Some (None, Some err)
      | Inr kp \<Rightarrow>
          (case ns_read of
             Inl err \<Rightarrow> Some (None, Some err)
           | Inr ns \<Rightarrow>
               (case eval_kp cv kp ns of
                  (hs0, hs1, c0, c1) \<Rightarrow>
                    (case proveSuccess cv kp hs0 hs1 c0 c1 rd of
                       None \<Rightarrow> None
                     | Some prf \<Rightarrow>
                         Some (Some \<lparr>enr_NS = ns, enr_C0 = Marshal cv c0,
                                    enr_C1 = Marshal cv c1, enr_Proof = Some prf\<rparr>, None)))))"

definition GetPublicKey :: "'p primitives \<Rightarrow> bytes \<Rightarrow> bytes option \<times> error option" where
  "GetPublicKey cv serverKeypair =
     (case unmarshalKeypair cv serverKeypair of
        Inl err \<Rightarrow> (None, Some err)
      | Inr k \<Rightarrow> (Some (PublicKey k), None))"

text \<open>\<^verbatim>\<open>proveFailure\<close> has the results \<^verbatim>\<open>(c1, proof, err)\<close>; \<^verbatim>\<open>c1\<close> is set before the only
  return with an error.\<close>

definition proveFailure ::
  "'p::ab_group_add primitives \<Rightarrow> keypair \<Rightarrow> 'p \<Rightarrow> 'p \<Rightarrow> reader \<Rightarrow> reader \<Rightarrow> reader
     \<Rightarrow> ('p \<times> ProofOfFail option \<times> error option) option" where
  "proveFailure cv kp c0 hs0 rd_r rd_a rd_b =
     (case randomZ cv rd_r of
        None \<Rightarrow> None
      | Some r \<Rightarrow>
          (let minusR = gf_Neg cv r;
               minusRX = gf_MulBytes cv (PrivateKey kp) minusR;
               c1 = ScalarMult cv c0 (Bytes r) + ScalarMult cv hs0 (Bytes minusRX);
               a = r;
               b = minusRX
           in (case randomZ cv rd_a of
                 None \<Rightarrow> None
               | Some za \<Rightarrow>
                   (case randomZ cv rd_b of
                      None \<Rightarrow> None
                    | Some zb \<Rightarrow>
                        (let blindA = Bytes za;
                             blindB = Bytes zb
                         in (case PointUnmarshal cv (PublicKey kp) of
                               Inl err \<Rightarrow> Some (c1, None, Some err)
                             | Inr publicKey \<Rightarrow>
                                 (let term1 = ScalarMult cv c0 blindA;
                                      term2 = ScalarMult cv hs0 blindB;
                                      term3 = ScalarMult cv publicKey blindA;
                                      term4 = ScalarBaseMult cv blindB;
                                      challenge = hashZ cv proofError
                                        [PublicKey kp, Marshal cv (curveG cv), Marshal cv c0,
                                         Marshal cv c1, Marshal cv term1, Marshal cv term2,
                                         Marshal cv term3, Marshal cv term4]
                                  in Some (c1,
                                       Some \<lparr>pof_Term1 = Marshal cv term1,
                                             pof_Term2 = Marshal cv term2,
                                             pof_Term3 = Marshal cv term3,
                                             pof_Term4 = Marshal cv term4,
                                             BlindA = Bytes (gf_AddBytes cv blindA
                                                              (gf_Mul cv challenge a)),
                                             BlindB = Bytes (gf_AddBytes cv blindB
                                                              (gf_Mul cv challenge b))\<rparr>,
                                       None))))))))"

text \<open>\<open>rd_s\<close> is the reader of the \<^verbatim>\<open>randomZ()\<close> in \<^verbatim>\<open>proveSuccess\<close>; \<open>rd_r\<close>, \<open>rd_a\<close> and
  \<open>rd_b\<close> are those of the three in \<^verbatim>\<open>proveFailure\<close>.\<close>

definition VerifyPassword ::
  "'p::ab_group_add primitives \<Rightarrow> bytes \<Rightarrow> VerifyPasswordRequest option
     \<Rightarrow> reader \<Rightarrow> reader \<Rightarrow> reader \<Rightarrow> reader
     \<Rightarrow> (VerifyPasswordResponse option \<times> error option) option" where
  "VerifyPassword cv serverKeypair req rd_s rd_r rd_a rd_b =
     (case unmarshalKeypair cv serverKeypair of
        Inl err \<Rightarrow> Some (None, Some err)
      | Inr kp \<Rightarrow>
          (case req of
             None \<Rightarrow> Some (None, Some (errors_New ''Invalid password verify request''))
           | Some rq \<Rightarrow>
               if length (req_NS rq) > 32 \<or> length (req_NS rq) = 0
               then Some (None, Some (errors_New ''Invalid password verify request''))
               else
                 (let ns = req_NS rq
                  in (case PointUnmarshal cv (req_C0 rq) of
                        Inl err \<Rightarrow> Some (None, Some err)
                      | Inr c0 \<Rightarrow>
                          (let hs0 = hashToPoint cv dhs0 [ns];
                               hs1 = hashToPoint cv dhs1 [ns]
                           in if ScalarMult cv hs0 (PrivateKey kp) = c0
                              then
                                (let c1 = ScalarMult cv hs1 (PrivateKey kp)
                                 in (case proveSuccess cv kp hs0 hs1 c0 c1 rd_s of
                                       None \<Rightarrow> None
                                     | Some prf \<Rightarrow>
                                         Some (Some \<lparr>Res = True, resp_C1 = Marshal cv c1,
                                                    ProofSuccess = Some prf,
                                                    ProofFail = None\<rparr>, None)))
                              else
                                (case proveFailure cv kp c0 hs0 rd_r rd_a rd_b of
                                   None \<Rightarrow> None
                                 | Some (c1, prf, err) \<Rightarrow>
                                     (case err of
                                        Some e \<Rightarrow> Some (None, Some e)
                                      | None \<Rightarrow>
                                          Some (Some \<lparr>Res = False, resp_C1 = Marshal cv c1,
                                                     ProofSuccess = None,
                                                     ProofFail = prf\<rparr>, None))))))))"


section \<open>The client (utils.go)\<close>

record 'p Client =
  clientPrivateKey :: int
  clientPrivateKeyBytes :: bytes
  serverPublicKey :: 'p
  serverPublicKeyBytes :: bytes

definition NewClient :: "'p primitives \<Rightarrow> bytes \<Rightarrow> bytes \<Rightarrow> error + 'p Client" where
  "NewClient cv privateKey serverPublicKey' =
     (if length privateKey = 0 then Inl (errors_New ''invalid private key'')
      else
        (case PointUnmarshal cv serverPublicKey' of
           Inl err \<Rightarrow> Inl (errors_Wrap err ''invalid public key'')
         | Inr pub \<Rightarrow>
             Inr \<lparr>clientPrivateKey = SetBytes privateKey,
                  clientPrivateKeyBytes = privateKey,
                  serverPublicKey = pub,
                  serverPublicKeyBytes = serverPublicKey'\<rparr>))"

definition validateProofOfSuccess ::
  "'p::ab_group_add primitives \<Rightarrow> 'p Client \<Rightarrow> ProofOfSuccess option \<Rightarrow> bytes
     \<Rightarrow> 'p \<Rightarrow> 'p \<Rightarrow> bytes \<Rightarrow> bytes \<Rightarrow> bool" where
  "validateProofOfSuccess cv c prf nonce c0 c1 c0b c1b =
     (case ProofOfSuccess_parse cv prf of
        Inl err \<Rightarrow> False
      | Inr (term1, term2, term3, blindX) \<Rightarrow>
          (let hs0 = hashToPoint cv dhs0 [nonce];
               hs1 = hashToPoint cv dhs1 [nonce];
               challenge = hashZ cv proofOk
                 [serverPublicKeyBytes c, Marshal cv (curveG cv), c0b, c1b,
                  pos_Term1 (the prf), pos_Term2 (the prf), pos_Term3 (the prf)]
           in if term1 + ScalarMultInt cv c0 challenge \<noteq> ScalarMultInt cv hs0 blindX
              then False
              else if term2 + ScalarMultInt cv c1 challenge \<noteq> ScalarMultInt cv hs1 blindX
              then False
              else if term3 + ScalarMultInt cv (serverPublicKey c) challenge
                        \<noteq> ScalarBaseMultInt cv blindX
              then False
              else True))"

text \<open>\<open>nc_read\<close> and \<open>mBuf_read\<close> are the results of the two \<^verbatim>\<open>rand.Read\<close>; the function
  panics on a read error.\<close>

definition EnrollAccount ::
  "'p::ab_group_add primitives \<Rightarrow> 'p Client \<Rightarrow> bytes \<Rightarrow> EnrollmentResponse option
     \<Rightarrow> error + bytes \<Rightarrow> error + bytes
     \<Rightarrow> panic + (EnrollmentRecord option \<times> bytes option \<times> error option)" where
  "EnrollAccount cv c password resp nc_read mBuf_read =
     (case resp of
        None \<Rightarrow> Inr (None, None, Some (errors_New ''invalid proof''))
      | Some rs \<Rightarrow>
          (case PointUnmarshal cv (enr_C0 rs) of
             Inl err \<Rightarrow> Inr (None, None, Some err)
           | Inr c0 \<Rightarrow>
               (case PointUnmarshal cv (enr_C1 rs) of
                  Inl err \<Rightarrow> Inr (None, None, Some err)
                | Inr c1 \<Rightarrow>
                    if \<not> validateProofOfSuccess cv c (enr_Proof rs) (enr_NS rs) c0 c1
                           (enr_C0 rs) (enr_C1 rs)
                    then Inr (None, None, Some (errors_New ''invalid proof''))
                    else
                      (case nc_read of
                         Inl err \<Rightarrow> Inl (panic_error err)
                       | Inr nc \<Rightarrow>
                           (let hc0 = hashToPoint cv dhc0 [nc, password];
                                hc1 = hashToPoint cv dhc1 [nc, password]
                            in (case mBuf_read of
                                  Inl err \<Rightarrow> Inl (panic_error err)
                                | Inr mBuf \<Rightarrow>
                                    (let m = hashToPoint cv dm [mBuf];
                                         key = hkdf_Secret cv (Marshal cv m);
                                         t0 = c0 + ScalarMultInt cv hc0 (clientPrivateKey c);
                                         t1 = c1 + ScalarMultInt cv hc1 (clientPrivateKey c)
                                                 + ScalarMultInt cv m (clientPrivateKey c)
                                     in Inr (Some \<lparr>rec_NS = enr_NS rs, rec_NC = nc,
                                                    rec_T0 = Marshal cv t0,
                                                    rec_T1 = Marshal cv t1\<rparr>,
                                             Some key, None))))))))"

definition CreateVerifyPasswordRequest ::
  "'p::ab_group_add primitives \<Rightarrow> 'p Client \<Rightarrow> bytes \<Rightarrow> EnrollmentRecord option
     \<Rightarrow> VerifyPasswordRequest option \<times> error option" where
  "CreateVerifyPasswordRequest cv c password rec =
     (case rec of
        None \<Rightarrow> (None, Some (errors_New ''invalid client record''))
      | Some r \<Rightarrow>
          if length (rec_NC r) = 0 \<or> length (rec_NS r) = 0 \<or> length (rec_T0 r) = 0
          then (None, Some (errors_New ''invalid client record''))
          else
            (let hc0 = hashToPoint cv dhc0 [rec_NC r, password];
                 minusY = gf_Neg cv (clientPrivateKey c)
             in (case PointUnmarshal cv (rec_T0 r) of
                   Inl err \<Rightarrow> (None, Some (errors_New ''invalid proof''))
                 | Inr t0 \<Rightarrow>
                     (let c0 = t0 + ScalarMultInt cv hc0 minusY
                      in (Some \<lparr>req_NS = rec_NS r, req_C0 = Marshal cv c0\<rparr>, None)))))"

definition validateProofOfFail ::
  "'p::ab_group_add primitives \<Rightarrow> 'p Client \<Rightarrow> VerifyPasswordResponse
     \<Rightarrow> 'p \<Rightarrow> 'p \<Rightarrow> 'p \<Rightarrow> 'p \<Rightarrow> 'p \<Rightarrow> error option" where
  "validateProofOfFail cv c resp c0 c1 hs0 hc0 hc1 =
     (case ProofOfFail_parse cv (ProofFail resp) of
        Inl err \<Rightarrow> Some (errors_New ''invalid public key'')
      | Inr (term1, term2, term3, term4, blindA, blindB) \<Rightarrow>
          (let challenge = hashZ cv proofError
                 [serverPublicKeyBytes c, Marshal cv (curveG cv), Marshal cv c0, resp_C1 resp,
                  pof_Term1 (the (ProofFail resp)), pof_Term2 (the (ProofFail resp)),
                  pof_Term3 (the (ProofFail resp)), pof_Term4 (the (ProofFail resp))]
           in if term1 + term2 + ScalarMultInt cv c1 challenge
                   \<noteq> ScalarMultInt cv c0 blindA + ScalarMultInt cv hs0 blindB
              then Some (errors_New ''proof verification failed'')
              else if term3 + term4
                   \<noteq> ScalarMultInt cv (serverPublicKey c) blindA + ScalarBaseMultInt cv blindB
              then Some (errors_New ''verification failed'')
              else None))"

text \<open>\<^verbatim>\<open>gf.Inv\<close> returns a scalar and no error: where the model's \<open>gf_Inv\<close> fails there is
  no scalar to multiply by, and the call ends in a panic.\<close>

definition CheckResponseAndDecrypt ::
  "'p::ab_group_add primitives \<Rightarrow> 'p Client \<Rightarrow> bytes \<Rightarrow> EnrollmentRecord option
     \<Rightarrow> VerifyPasswordResponse option \<Rightarrow> panic + (bytes option \<times> error option)" where
  "CheckResponseAndDecrypt cv c password rec resp =
     (case resp of
        None \<Rightarrow> Inr (None, Some (errors_New ''invalid response''))
      | Some rs \<Rightarrow>
          (case EnrollmentRecord_parse cv rec of
             Inl err \<Rightarrow> Inr (None, Some (errors_New ''invalid record''))
           | Inr (t0, t1) \<Rightarrow>
               (case PointUnmarshal cv (resp_C1 rs) of
                  Inl err \<Rightarrow> Inr (None, Some err)
                | Inr c1 \<Rightarrow>
                    (let hc0 = hashToPoint cv dhc0 [rec_NC (the rec), password];
                         hc1 = hashToPoint cv dhc1 [rec_NC (the rec), password];
                         minusY = gf_Neg cv (clientPrivateKey c);
                         c0 = t0 + ScalarMultInt cv hc0 minusY
                     in if Res rs
                        then
                          if \<not> validateProofOfSuccess cv c (ProofSuccess rs) (rec_NS (the rec))
                                 c0 c1 (Marshal cv c0) (resp_C1 rs)
                          then Inr (None, Some (errors_New ''result is ok but proof is invalid''))
                          else
                            (case gf_Inv cv (clientPrivateKey c) of
                               None \<Rightarrow> Inl panic_no_inverse
                             | Some xinv \<Rightarrow>
                                 (let m = ScalarMultInt cv
                                            (t1 + (- c1) + ScalarMultInt cv hc1 minusY) xinv;
                                      key = hkdf_Secret cv (Marshal cv m)
                                  in Inr (Some key, None)))
                        else
                          (let hs0 = hashToPoint cv dhs0 [rec_NS (the rec)];
                               err = validateProofOfFail cv c rs c0 c1 hs0 hc0 hc1
                           in Inr (None, err))))))"

text \<open>\<^verbatim>\<open>Client.Rotate\<close> updates the client in place and returns an error: the model
  returns the client after the call and the error.\<close>

definition Client_Rotate ::
  "'p::ab_group_add primitives \<Rightarrow> 'p Client \<Rightarrow> UpdateToken option \<Rightarrow> 'p Client \<times> error option"
  where
  "Client_Rotate cv c token =
     (case UpdateToken_parse token of
        Inl err \<Rightarrow> (c, Some err)
      | Inr (a, b) \<Rightarrow>
          (let c1 = c\<lparr>clientPrivateKey := gf_Mul cv (clientPrivateKey c) a\<rparr>;
               c2 = c1\<lparr>clientPrivateKeyBytes := Bytes (clientPrivateKey c1)\<rparr>;
               pub = ScalarMultInt cv (serverPublicKey c2) a + ScalarBaseMultInt cv b;
               c3 = c2\<lparr>serverPublicKey := pub\<rparr>;
               c4 = c3\<lparr>serverPublicKeyBytes := Marshal cv pub\<rparr>
           in (c4, None)))"


section \<open>Assumptions on the primitives\<close>

text \<open>
  What the theorems below assume of the primitives, each as a predicate on the record.

  \<open>zsmul k p\<close> is the multiple of the point p by the integer k. In a group whose order
  is \<open>curve_N\<close> it is what \<^verbatim>\<open>ScalarMult\<close> computes.
\<close>

definition zsmul :: "int \<Rightarrow> 'p::ab_group_add \<Rightarrow> 'p" where
  "zsmul k p = (if 0 \<le> k then nsmul (nat k) p else - nsmul (nat (- k)) p)"

text \<open>The points form a group of prime order \<open>curve_N\<close>: every point has an order
  that divides it, every scalar strictly between 0 and \<open>curve_N\<close> is coprime to it, and
  the base point is not the point at infinity.\<close>

definition group_ok :: "'p::ab_group_add primitives \<Rightarrow> bool" where
  "group_ok cv \<longleftrightarrow>
     1 < curve_N cv \<and>
     (\<forall>p::'p. nsmul (nat (curve_N cv)) p = 0) \<and>
     (\<forall>a. 0 < a \<and> a < curve_N cv \<longrightarrow> coprime a (curve_N cv)) \<and>
     curveG cv \<noteq> 0"

text \<open>The point codec: \<^verbatim>\<open>PointUnmarshal\<close> inverts \<^verbatim>\<open>Marshal\<close> on every point but the point
  at infinity, whose encoding it rejects; what it accepts is the encoding of the point it
  returns; no encoding is empty.\<close>

definition codec_ok :: "'p::ab_group_add primitives \<Rightarrow> bool" where
  "codec_ok cv \<longleftrightarrow>
     (\<forall>p. p \<noteq> 0 \<longrightarrow> PointUnmarshal cv (Marshal cv p) = Inr p) \<and>
     isl (PointUnmarshal cv (Marshal cv 0)) \<and>
     (\<forall>b p. PointUnmarshal cv b = Inr p \<longrightarrow> Marshal cv p = b) \<and>
     (\<forall>p. Marshal cv p \<noteq> [])"

text \<open>\<^verbatim>\<open>hashToPoint\<close> never returns the point at infinity, and \<^verbatim>\<open>hashZ\<close> returns a
  scalar that is not negative.\<close>

definition hash_ok :: "'p::ab_group_add primitives \<Rightarrow> bool" where
  "hash_ok cv \<longleftrightarrow>
     (\<forall>tag fs. hashToPoint cv tag fs \<noteq> 0) \<and>
     (\<forall>tag fs. 0 \<le> hashZ cv tag fs)"

text \<open>\<^verbatim>\<open>unmarshalKeypair\<close> inverts \<^verbatim>\<open>marshalKeypair\<close>.\<close>

definition keypair_codec_ok :: "'p primitives \<Rightarrow> bool" where
  "keypair_codec_ok cv \<longleftrightarrow>
     (\<forall>pub priv b. marshalKeypair cv pub priv = Inr b \<longrightarrow>
        unmarshalKeypair cv b = Inr \<lparr>PublicKey = pub, PrivateKey = priv\<rparr>)"

text \<open>
  The state after an enrollment with the password \<open>pw\<close> and the key point \<open>m\<close>: the
  public key of the server key pair \<open>kp\<close> is \<open>y\<cdot>G\<close>, the client \<open>c\<close> holds it, neither
  private key is 0 modulo \<open>curve_N\<close>, and the record holds the encodings of
  \<open>T0 = y\<cdot>HS0 + x\<cdot>HC0\<close> and \<open>T1 = y\<cdot>HS1 + x\<cdot>HC1 + x\<cdot>M\<close>, neither of them the point at
  infinity.
\<close>

definition enrolled ::
  "'p::ab_group_add primitives \<Rightarrow> keypair \<Rightarrow> 'p Client \<Rightarrow> bytes \<Rightarrow> EnrollmentRecord \<Rightarrow> 'p \<Rightarrow> bool"
  where
  "enrolled cv kp c pw rec m \<longleftrightarrow>
     (let y = SetBytes (PrivateKey kp);
          x = clientPrivateKey c;
          hs0 = hashToPoint cv dhs0 [rec_NS rec];
          hs1 = hashToPoint cv dhs1 [rec_NS rec];
          hc0 = hashToPoint cv dhc0 [rec_NC rec, pw];
          hc1 = hashToPoint cv dhc1 [rec_NC rec, pw];
          t0 = zsmul y hs0 + zsmul x hc0;
          t1 = zsmul y hs1 + zsmul x hc1 + zsmul x m
      in y mod curve_N cv \<noteq> 0 \<and> 0 \<le> x \<and> x mod curve_N cv \<noteq> 0 \<and>
         serverPublicKey c = zsmul y (curveG cv) \<and>
         serverPublicKeyBytes c = PublicKey kp \<and>
         PublicKey kp = Marshal cv (zsmul y (curveG cv)) \<and>
         0 < length (rec_NS rec) \<and> length (rec_NS rec) \<le> 32 \<and> 0 < length (rec_NC rec) \<and>
         t0 \<noteq> 0 \<and> t1 \<noteq> 0 \<and>
         rec_T0 rec = Marshal cv t0 \<and> rec_T1 rec = Marshal cv t1)"

section \<open>A small instance of the primitives\<close>

text \<open>
  The integers modulo 13 under addition, with base point 1, a two-byte point encoding
  \<open>[0x04, v]\<close>, hashes that count bytes, the identity as key derivation and a
  length-prefixed key pair encoding. It satisfies every assumption above, and the
  functions of the sources can be evaluated on it.
\<close>

definition digest :: "bytes \<Rightarrow> bytes list \<Rightarrow> nat" where
  "digest tag fs = unat (hd tag) + length (concat fs)"

definition Z13_point :: "nat \<Rightarrow> 13" where
  "Z13_point k =
     (if k mod 4 = 0 then 1 else if k mod 4 = 1 then 2 else if k mod 4 = 2 then 4 else 7)"

definition Z13 :: "13 primitives" where
  "Z13 =
     \<lparr>curve_N = 13,
      curveG = 1,
      Marshal = (\<lambda>p. [0x04, of_int (Rep_bit1 p)]),
      PointUnmarshal = (\<lambda>b.
         case b of
           [t, v] \<Rightarrow>
             if t = 0x04 \<and> 0 < uint v \<and> uint v < 13 then Inr (of_int (uint v))
             else Inl (errors_New ''Invalid curve point'')
         | _ \<Rightarrow> Inl (errors_New ''Invalid curve point'')),
      hashToPoint = (\<lambda>tag fs. Z13_point (digest tag fs)),
      hashZ = (\<lambda>tag fs. int (digest tag fs) mod 13),
      hkdf_Secret = (\<lambda>ikm. ikm),
      marshalKeypair = (\<lambda>pub priv.
         if length pub < 256 then Inr (of_nat (length pub) # pub @ priv)
         else Inl (errors_New ''public key too long'')),
      unmarshalKeypair = (\<lambda>b.
         case b of
           [] \<Rightarrow> Inl (errors_New ''invalid keypair'')
         | l # rest \<Rightarrow>
             if unat l \<le> length rest
             then Inr \<lparr>PublicKey = take (unat l) rest, PrivateKey = drop (unat l) rest\<rparr>
             else Inl (errors_New ''invalid keypair''))\<rparr>"

text \<open>A reader that delivers 31 zero bytes and the byte \<open>v\<close> at every read.\<close>

definition draw :: "byte \<Rightarrow> reader" where
  "draw v = (\<lambda>i. replicate 31 0 @ [v])"

section \<open>The invariant of the client's cached bytes\<close>

text \<open>The client keeps each key twice, as a value and as bytes: the private key bytes
  decode (big-endian) to the private key, and the public key bytes are the encoding of
  the public key point.\<close>

definition client_inv :: "'p primitives \<Rightarrow> 'p Client \<Rightarrow> bool" where
  "client_inv cv c \<longleftrightarrow>
     SetBytes (clientPrivateKeyBytes c) = clientPrivateKey c \<and>
     serverPublicKeyBytes c = Marshal cv (serverPublicKey c)"

section \<open>Helper facts\<close>

lemma SetBytes_snoc: "SetBytes (xs @ [b]) = SetBytes xs * 256 + uint b"
  by (simp add: SetBytes_def)

lemma uint_byte_mod: "uint (of_nat (n mod 256) :: byte) = int (n mod 256)"
  by (simp add: uint_word_of_int take_bit_eq_mod zmod_int unsigned_of_nat)

lemma SetBytes_nat_Bytes: "SetBytes (nat_Bytes n) = int n"
proof (induction n rule: nat_Bytes.induct)
  case (1 n)
  show ?case
  proof (cases "n = 0")
    case True
    then show ?thesis by (simp add: nat_Bytes.simps SetBytes_def)
  next
    case False
    have "SetBytes (nat_Bytes n)
        = SetBytes (nat_Bytes (n div 256)) * 256 + uint (of_nat (n mod 256) :: byte)"
      using False by (subst nat_Bytes.simps) (simp add: SetBytes_snoc)
    also have "\<dots> = int (n div 256) * 256 + int (n mod 256)"
      using 1 [OF False] by (simp only: uint_byte_mod)
    also have "\<dots> = int (n div 256 * 256 + n mod 256)"
      by (simp only: of_nat_mult of_nat_add of_nat_numeral)
    also have "\<dots> = int n" by simp
    finally show ?thesis .
  qed
qed

lemma SetBytes_Bytes: "SetBytes (Bytes x) = \<bar>x\<bar>"
  by (simp add: Bytes_def SetBytes_nat_Bytes)

lemma RandomZ_unfold:
  "RandomZ cv rd =
     (if SetBytes (rd 0) \<ge> curve_N cv then Inl (panic_bytes (rd 0)) else Inr (SetBytes (rd 0)))"
  by (simp add: RandomZ_def Let_def)

lemma RandomZ_bytes_unfold:
  "RandomZ_bytes cv rd =
     (if SetBytes (rd 0) \<ge> curve_N cv then Inl (panic_bytes (rd 0)) else Inr (rd 0))"
  by (simp add: RandomZ_bytes_def Let_def)

lemma nsmul_add: "nsmul (a + b) p = nsmul a p + nsmul b p"
  by (induction a) (simp_all add: add.assoc)

lemma nsmul_zero_pt [simp]: "nsmul k (0::'p::ab_group_add) = 0"
  by (induction k) simp_all

lemma nsmul_pt_add: "nsmul k (p + q) = nsmul k p + nsmul k (q::'p::ab_group_add)"
  by (induction k) (simp_all add: algebra_simps)

lemma nsmul_uminus: "nsmul k (- p) = - nsmul k (p::'p::ab_group_add)"
  by (induction k) simp_all

lemma nsmul_mult: "nsmul (a * b) p = nsmul a (nsmul b p)"
  by (induction a) (simp_all add: nsmul_add)

lemma zsmul_diff_nat: "zsmul (int a - int b) p = nsmul a p - nsmul b p"
proof (cases "b \<le> a")
  case True
  have e: "nsmul (a - b) p = nsmul a p - nsmul b p"
    using True nsmul_add [of "a - b" b p] by (simp add: algebra_simps)
  have n: "nat (int a - int b) = a - b" by simp
  have "0 \<le> int a - int b" using True by simp
  then have "zsmul (int a - int b) p = nsmul (a - b) p"
    by (simp only: zsmul_def n if_True)
  then show ?thesis by (simp only: e)
next
  case False
  have e: "nsmul (b - a) p = nsmul b p - nsmul a p"
    using False nsmul_add [of "b - a" a p] by (simp add: algebra_simps)
  have n: "nat (- (int a - int b)) = b - a" by simp
  have "\<not> 0 \<le> int a - int b" using False by simp
  then have "zsmul (int a - int b) p = - nsmul (b - a) p"
    by (simp only: zsmul_def n if_False)
  then show ?thesis by (simp only: e minus_diff_eq)
qed

lemma int_as_diff: "\<exists>a b. (k::int) = int a - int b"
proof (cases "0 \<le> k")
  case True
  then have "k = int (nat k) - int 0" by simp
  then show ?thesis by blast
next
  case False
  then have "k = int 0 - int (nat (- k))" by simp
  then show ?thesis by blast
qed

lemma zsmul_add: "zsmul (a + b) p = zsmul a p + zsmul b p"
proof -
  obtain a1 a2 where a: "a = int a1 - int a2" using int_as_diff by blast
  obtain b1 b2 where b: "b = int b1 - int b2" using int_as_diff by blast
  have "a + b = int (a1 + b1) - int (a2 + b2)" using a b by simp
  then have "zsmul (a + b) p = nsmul (a1 + b1) p - nsmul (a2 + b2) p"
    by (simp only: zsmul_diff_nat)
  then show ?thesis
    by (simp add: a b zsmul_diff_nat nsmul_add)
qed

lemma zsmul_zero [simp]: "zsmul 0 p = 0"
  by (simp add: zsmul_def)

lemma zsmul_zero_pt [simp]: "zsmul k (0::'p::ab_group_add) = 0"
  by (simp add: zsmul_def)

lemma zsmul_one [simp]: "zsmul 1 p = p"
  by (simp add: zsmul_def)

lemma zsmul_uminus_scalar: "zsmul (- k) p = - zsmul k p"
  by (simp add: zsmul_def)

lemma zsmul_pt_add: "zsmul k (p + q) = zsmul k p + zsmul k q"
  by (simp add: zsmul_def nsmul_pt_add)

lemma zsmul_pt_uminus: "zsmul k (- p) = - zsmul k p"
  by (simp add: zsmul_def nsmul_uminus)

lemma zsmul_nat: "zsmul (int a) p = nsmul a p"
  by (simp add: zsmul_def)

lemma zsmul_mult: "zsmul (a * b) p = zsmul a (zsmul b p)"
proof -
  have nn: "zsmul (int m * int n) q = zsmul (int m) (zsmul (int n) q)" for m n and q :: 'a
    by (simp add: zsmul_nat nsmul_mult flip: of_nat_mult)
  have nb: "zsmul (int m * b) q = zsmul (int m) (zsmul b q)" for m and q :: 'a
  proof (cases "0 \<le> b")
    case True
    then have "b = int (nat b)" by simp
    then obtain n where "b = int n" by blast
    then show ?thesis by (simp add: nn)
  next
    case False
    then have "b = - int (nat (- b))" by simp
    then obtain n where n: "b = - int n" by blast
    have "zsmul (int m * b) q = - zsmul (int m * int n) q"
      by (simp add: n flip: zsmul_uminus_scalar)
    then show ?thesis by (simp add: nn n zsmul_uminus_scalar zsmul_pt_uminus)
  qed
  show ?thesis
  proof (cases "0 \<le> a")
    case True
    then have "a = int (nat a)" by simp
    then obtain m where "a = int m" by blast
    then show ?thesis by (simp add: nb)
  next
    case False
    then have "a = - int (nat (- a))" by simp
    then obtain m where m: "a = - int m" by blast
    have "zsmul (a * b) p = - zsmul (int m * b) p"
      by (simp add: m flip: zsmul_uminus_scalar)
    then show ?thesis by (simp add: nb m zsmul_uminus_scalar)
  qed
qed

lemma zsmul_order:
  fixes cv :: "'p::ab_group_add primitives" and p :: 'p
  shows "group_ok cv \<Longrightarrow> zsmul (curve_N cv) p = 0"
  by (simp add: group_ok_def zsmul_def)

lemma zsmul_mod:
  fixes cv :: "'p::ab_group_add primitives" and p :: 'p
  assumes "group_ok cv"
  shows "zsmul (k mod curve_N cv) p = zsmul k p"
proof -
  have "zsmul k p = zsmul (k div curve_N cv * curve_N cv + k mod curve_N cv) p"
    by simp
  also have "\<dots> = zsmul (k div curve_N cv) (zsmul (curve_N cv) p) + zsmul (k mod curve_N cv) p"
    by (simp only: zsmul_add zsmul_mult)
  finally show ?thesis using assms by (simp add: zsmul_order)
qed

lemma zsmul_nonzero:
  fixes cv :: "'p::ab_group_add primitives" and p :: 'p
  assumes ok: "group_ok cv" and p: "p \<noteq> 0" and k: "k mod curve_N cv \<noteq> 0"
  shows "zsmul k p \<noteq> 0"
proof
  assume z: "zsmul k p = 0"
  let ?n = "curve_N cv"
  let ?r = "k mod ?n"
  have N: "1 < ?n" using ok by (simp add: group_ok_def)
  have "0 \<le> ?r" using N by simp
  with k have rpos: "0 < ?r" by linarith
  have rlt: "?r < ?n" using N by simp
  have "coprime ?r ?n" using ok rpos rlt unfolding group_ok_def by blast
  then have g: "gcd ?r ?n = 1" by simp
  obtain u v where "u * ?r + v * ?n = gcd ?r ?n" using bezout_int by blast
  then have uv: "u * ?r + v * ?n = 1" using g by simp
  have zr: "zsmul ?r p = 0" using z ok by (simp only: zsmul_mod)
  have "p = zsmul (u * ?r + v * ?n) p" by (simp only: uv zsmul_one)
  also have "\<dots> = zsmul u (zsmul ?r p) + zsmul v (zsmul ?n p)"
    by (simp only: zsmul_add zsmul_mult)
  also have "\<dots> = 0" by (simp only: zr zsmul_order [OF ok] zsmul_zero_pt add_0)
  finally show False using p by simp
qed

lemma SetBytes_nonneg: "0 \<le> SetBytes b"
proof (induction b rule: rev_induct)
  case Nil
  then show ?case by (simp add: SetBytes_def)
next
  case (snoc x xs)
  then show ?case by (simp add: SetBytes_snoc)
qed

lemma ScalarMult_zsmul:
  fixes cv :: "'p::ab_group_add primitives" and p :: 'p
  shows "group_ok cv \<Longrightarrow> ScalarMult cv p k = zsmul (SetBytes k) p"
proof -
  assume ok: "group_ok cv"
  then have "0 \<le> SetBytes k mod curve_N cv" by (simp add: group_ok_def)
  then have "ScalarMult cv p k = zsmul (SetBytes k mod curve_N cv) p"
    by (simp add: ScalarMult_def zsmul_def)
  then show ?thesis using ok by (simp add: zsmul_mod)
qed

lemma ScalarMultInt_zsmul:
  fixes cv :: "'p::ab_group_add primitives" and p :: 'p
  shows "group_ok cv \<Longrightarrow> 0 \<le> k \<Longrightarrow> ScalarMultInt cv p k = zsmul k p"
  by (simp add: ScalarMultInt_def ScalarMult_zsmul SetBytes_Bytes)

lemma ScalarBaseMult_zsmul: "group_ok cv \<Longrightarrow> ScalarBaseMult cv k = zsmul (SetBytes k) (curveG cv)"
  by (simp add: ScalarBaseMult_def ScalarMult_zsmul)

lemma ScalarBaseMultInt_zsmul:
  "group_ok cv \<Longrightarrow> 0 \<le> k \<Longrightarrow> ScalarBaseMultInt cv k = zsmul k (curveG cv)"
  by (simp add: ScalarBaseMultInt_def ScalarBaseMult_zsmul SetBytes_Bytes)

lemma gf_nonneg:
  "group_ok cv \<Longrightarrow> 0 \<le> gf_Add cv a b"
  "group_ok cv \<Longrightarrow> 0 \<le> gf_Mul cv a b"
  "group_ok cv \<Longrightarrow> 0 \<le> gf_Neg cv a"
  by (simp_all add: group_ok_def gf_Add_def gf_Mul_def gf_Neg_def)

lemma zsmul_gf:
  fixes cv :: "'p::ab_group_add primitives" and p :: 'p
  shows "group_ok cv \<Longrightarrow> zsmul (gf_Add cv a b) p = zsmul a p + zsmul b p"
    and "group_ok cv \<Longrightarrow> zsmul (gf_Mul cv a b) p = zsmul a (zsmul b p)"
    and "group_ok cv \<Longrightarrow> zsmul (gf_Neg cv a) p = - zsmul a p"
  by (simp_all add: gf_Add_def gf_Mul_def gf_Neg_def zsmul_mod zsmul_add zsmul_mult
      zsmul_uminus_scalar)

lemma gf_Inv_correct:
  fixes cv :: "'p::ab_group_add primitives"
  assumes ok: "group_ok cv" and x: "x mod curve_N cv \<noteq> 0"
  shows "\<exists>xi. gf_Inv cv x = Some xi \<and> 0 \<le> xi \<and> (\<forall>p::'p. zsmul xi (zsmul x p) = p)"
proof -
  let ?n = "curve_N cv"
  let ?r = "x mod ?n"
  have N: "1 < ?n" using ok by (simp add: group_ok_def)
  have r0: "0 \<le> ?r" using N by simp
  with x have rpos: "0 < ?r" by linarith
  have rlt: "?r < ?n" using N by simp
  have "coprime ?r ?n" using ok rpos rlt unfolding group_ok_def by blast
  then have g: "gcd ?r ?n = 1" by simp
  let ?f = "fst (bezw (nat ?r) (nat ?n))"
  let ?s = "snd (bezw (nat ?r) (nat ?n))"
  have nr: "int (nat ?r) = ?r" using r0 by simp
  have nn: "int (nat ?n) = ?n" using N by simp
  have "int (gcd (nat ?r) (nat ?n)) = ?f * int (nat ?r) + ?s * int (nat ?n)"
    by (rule bezw_aux)
  moreover have "int (gcd (nat ?r) (nat ?n)) = gcd (int (nat ?r)) (int (nat ?n))"
    by (simp only: gcd_int_int_eq)
  ultimately have bz: "?f * ?r + ?s * ?n = 1" using g by (simp only: nr nn)
  have inv: "gf_Inv cv x = Some (?f mod ?n)" using g by (simp add: gf_Inv_def Let_def)
  have "zsmul (?f mod ?n) (zsmul x p) = p" for p :: 'p
  proof -
    have "zsmul (?f mod ?n) (zsmul x p) = zsmul ?f (zsmul ?r p)"
      by (simp only: zsmul_mod [OF ok])
    also have "\<dots> = zsmul ?f (zsmul ?r p) + zsmul ?s (zsmul ?n p)"
      by (simp only: zsmul_order [OF ok] zsmul_zero_pt add_0_right)
    also have "\<dots> = zsmul (?f * ?r + ?s * ?n) p"
      by (simp only: zsmul_add zsmul_mult)
    finally show ?thesis by (simp only: bz zsmul_one)
  qed
  moreover have "0 \<le> ?f mod ?n" using N by simp
  ultimately show ?thesis using inv by blast
qed

lemma nsmul_ring: "nsmul k (p::'a::ring_1) = of_nat k * p"
  by (induction k) (simp_all add: algebra_simps)

lemma Z13_thirteen: "(13::13) = 0"
  by simp

lemma Z13_Rep_range: "0 \<le> Rep_bit1 (p::13)" "Rep_bit1 (p::13) < 13"
  using Rep_bit1 [of p] by simp_all

lemma Z13_of_int_Rep: "of_int (Rep_bit1 (p::13)) = p"
  using bit1.of_int_eq [where 'a = 6, of "Rep_bit1 p"] bit1.Rep_mod [where 'a = 6, of p]
  by (simp add: Rep_bit1_inverse)

lemma Z13_Rep_of_int: "Rep_bit1 (of_int z :: 13) = z mod 13"
  using bit1.of_int_eq [where 'a = 6, of z] bit1.Rep_Abs_mod [where 'a = 6, of z]
  by simp

lemma Z13_Rep_zero: "Rep_bit1 (p::13) = 0 \<longleftrightarrow> p = 0"
  using Z13_of_int_Rep [of p] Z13_Rep_of_int [of 0] by auto

lemma Rep13: "Rep_bit1 (5::13) = 5" "Rep_bit1 (0::13) = 0" "Rep_bit1 (1::13) = 1"  "Rep_bit1 (12::13) = 12"
  using Z13_Rep_of_int [of 5] Z13_Rep_of_int [of 0] Z13_Rep_of_int [of 1] Z13_Rep_of_int [of 12] by simp_all

lemma Z13_coprime: "0 < a \<Longrightarrow> a < 13 \<Longrightarrow> coprime (a::int) 13"
proof -
  assume "0 < a" "a < 13"
  then have "a = 1 \<or> a = 2 \<or> a = 3 \<or> a = 4 \<or> a = 5 \<or> a = 6 \<or> a = 7 \<or> a = 8 \<or> a = 9
      \<or> a = 10 \<or> a = 11 \<or> a = 12" by arith
  moreover have "coprime (1::int) 13" "coprime (2::int) 13" "coprime (3::int) 13"
    "coprime (4::int) 13" "coprime (5::int) 13" "coprime (6::int) 13" "coprime (7::int) 13"
    "coprime (8::int) 13" "coprime (9::int) 13" "coprime (10::int) 13" "coprime (11::int) 13"
    "coprime (12::int) 13"
    by code_simp+
  ultimately show ?thesis by blast
qed

lemma Z13_group_ok: "group_ok Z13"
  by (simp add: group_ok_def Z13_def nsmul_ring Z13_coprime Z13_thirteen)

lemma Z13_point_nonzero: "Z13_point k \<noteq> 0"
  by (simp add: Z13_point_def)

lemma Z13_hash_ok: "hash_ok Z13"
  by (simp add: hash_ok_def Z13_def Z13_point_nonzero)

lemma unat_length_byte: "n < 256 \<Longrightarrow> unat (of_nat n :: byte) = n"
  by (simp add: unsigned_of_nat take_bit_nat_eq_self)

lemma Z13_keypair_codec_ok: "keypair_codec_ok Z13"
  by (auto simp add: keypair_codec_ok_def Z13_def unat_length_byte split: if_splits)

lemma Z13_codec_ok: "codec_ok Z13"
proof -
  have a: "PointUnmarshal Z13 (Marshal Z13 p) = Inr p" if "p \<noteq> 0" for p
  proof -
    have "uint (of_int (Rep_bit1 p) :: byte) = Rep_bit1 p"
      using Z13_Rep_range [of p] by (simp add: uint_word_of_int take_bit_eq_mod)
    moreover have "0 < Rep_bit1 p" using that Z13_Rep_range (1) [of p] Z13_Rep_zero [of p] by linarith
    ultimately show ?thesis using Z13_Rep_range (2) [of p]
      by (simp add: Z13_def Z13_of_int_Rep)
  qed
  have b: "Marshal Z13 p = b" if "PointUnmarshal Z13 b = Inr p" for b p
  proof -
    from that obtain v where b: "b = [0x04, v]" and v: "0 < uint v" "uint v < 13"
      and p: "p = of_int (uint v)"
      by (auto simp add: Z13_def split: list.splits if_splits)
    have "uint v mod 13 = uint v" using v by simp
    then have r: "Rep_bit1 p = uint v" unfolding p by (simp only: Z13_Rep_of_int)
    then have "p \<noteq> 0" using v Z13_Rep_zero [of p] by simp
    then show ?thesis using r by (simp add: Z13_def b)
  qed
  have c: "isl (PointUnmarshal Z13 (Marshal Z13 0))"
    using Z13_Rep_zero [of 0] by (simp add: Z13_def)
  show ?thesis
    unfolding codec_ok_def using a b c by (simp add: Z13_def)
qed

lemma codec_decode:
  "codec_ok cv \<Longrightarrow> p \<noteq> 0 \<Longrightarrow> PointUnmarshal cv (Marshal cv p) = Inr p"
  by (simp add: codec_ok_def)

lemma codec_decoded:
  assumes "codec_ok cv" and "PointUnmarshal cv b = Inr p"
  shows "Marshal cv p = b" and "p \<noteq> 0"
proof -
  show m: "Marshal cv p = b" using assms by (simp add: codec_ok_def)
  show "p \<noteq> 0"
  proof
    assume "p = 0"
    then have "PointUnmarshal cv (Marshal cv 0) = Inr p" using m assms(2) by simp
    moreover have "isl (PointUnmarshal cv (Marshal cv 0))" using assms(1) by (simp add: codec_ok_def)
    ultimately show False by simp
  qed
qed

lemma codec_same:
  assumes "codec_ok cv" and "PointUnmarshal cv (Marshal cv p) = Inr q"
  shows "q = p" and "p \<noteq> 0"
proof -
  show p: "p \<noteq> 0"
  proof
    assume "p = 0"
    then have "PointUnmarshal cv (Marshal cv 0) = Inr q" using assms(2) by simp
    moreover have "isl (PointUnmarshal cv (Marshal cv 0))" using assms(1) by (simp add: codec_ok_def)
    ultimately show False by simp
  qed
  then show "q = p" using assms codec_decode [of cv p] by simp
qed

lemma randomZ_loop_range:
  assumes "randomZ_loop n rd i = Some k"
  shows "0 \<le> k \<and> k < n"
proof (rule randomZ_loop.raw_induct
    [where P = "\<lambda>n rd i k. 0 \<le> k \<and> k < n" and n = n and rd = rd and i = i and y = k])
  show "randomZ_loop n rd i = Some k" by (rule assms)
next
  fix f :: "int \<Rightarrow> reader \<Rightarrow> nat \<Rightarrow> int option" and n rd i k
  assume "\<And>n rd i y. f n rd i = Some y \<Longrightarrow> 0 \<le> y \<and> y < n"
    and "(let priv = rd i in if n \<le> SetBytes priv then f n rd (Suc i) else Some (SetBytes priv))
      = Some k"
  then show "0 \<le> k \<and> k < n"
    by (auto simp add: Let_def SetBytes_nonneg split: if_splits)
qed

lemma randomZ_range:
  "randomZ cv rd = Some k \<Longrightarrow> 0 \<le> k"
  "randomZ cv rd = Some k \<Longrightarrow> k < curve_N cv"
  using randomZ_loop_range [of "curve_N cv" rd 0 k] by (simp_all add: randomZ_def)

lemma randomZ_ok:
  "SetBytes (rd 0) < curve_N cv \<Longrightarrow> randomZ cv rd = Some (SetBytes (rd 0))"
  by (simp add: randomZ_def randomZ_loop.simps [of "curve_N cv" rd 0])

lemma hash_nonzero: "hash_ok cv \<Longrightarrow> hashToPoint cv tag fs \<noteq> 0"
  by (simp add: hash_ok_def)

lemma hashZ_nonneg: "hash_ok cv \<Longrightarrow> 0 \<le> hashZ cv tag fs"
  by (simp add: hash_ok_def)

lemma zsmul_nonzero_small:
  fixes cv :: "'p::ab_group_add primitives" and p :: 'p
  assumes "group_ok cv" "p \<noteq> 0" "0 < k" "k < curve_N cv"
  shows "zsmul k p \<noteq> 0"
  using assms zsmul_nonzero [of cv p k] by simp

lemma zsmul_commute: "zsmul a (zsmul b p) = zsmul b (zsmul a p)"
  by (simp add: mult.commute flip: zsmul_mult)

lemma proveSuccess_verifies:
  fixes cv :: "'p::ab_group_add primitives"
  assumes ok: "group_ok cv" "codec_ok cv" "hash_ok cv"
    and Y: "serverPublicKey c = zsmul (SetBytes (PrivateKey kp)) (curveG cv)"
    and Yb: "serverPublicKeyBytes c = PublicKey kp"
    and rz: "randomZ cv rd = Some k" and k0: "0 < k"
  shows "\<exists>sp.
      proveSuccess cv kp (hashToPoint cv dhs0 [ns]) (hashToPoint cv dhs1 [ns])
        (zsmul (SetBytes (PrivateKey kp)) (hashToPoint cv dhs0 [ns]))
        (zsmul (SetBytes (PrivateKey kp)) (hashToPoint cv dhs1 [ns])) rd = Some sp \<and>
      validateProofOfSuccess cv c (Some sp) ns
        (zsmul (SetBytes (PrivateKey kp)) (hashToPoint cv dhs0 [ns]))
        (zsmul (SetBytes (PrivateKey kp)) (hashToPoint cv dhs1 [ns]))
        (Marshal cv (zsmul (SetBytes (PrivateKey kp)) (hashToPoint cv dhs0 [ns])))
        (Marshal cv (zsmul (SetBytes (PrivateKey kp)) (hashToPoint cv dhs1 [ns])))"
proof -
  let ?b = k
  have b: "0 < k" "k < curve_N cv" using k0 randomZ_range(2) [OF rz] by simp_all
  let ?y = "SetBytes (PrivateKey kp)"
  let ?hs0 = "hashToPoint cv dhs0 [ns]" and ?hs1 = "hashToPoint cv dhs1 [ns]"
  let ?c0 = "zsmul ?y ?hs0" and ?c1 = "zsmul ?y ?hs1"
  let ?t1 = "zsmul ?b ?hs0" and ?t2 = "zsmul ?b ?hs1" and ?t3 = "zsmul ?b (curveG cv)"
  let ?ch = "hashZ cv proofOk [PublicKey kp, Marshal cv (curveG cv), Marshal cv ?c0,
     Marshal cv ?c1, Marshal cv ?t1, Marshal cv ?t2, Marshal cv ?t3]"
  let ?res = "gf_Add cv ?b (gf_MulBytes cv (PrivateKey kp) ?ch)"
  let ?sp = "\<lparr>pos_Term1 = Marshal cv ?t1, pos_Term2 = Marshal cv ?t2,
     pos_Term3 = Marshal cv ?t3, BlindX = Bytes ?res\<rparr>"
  have b0: "0 \<le> ?b" using b by simp
  have G: "curveG cv \<noteq> 0" using ok(1) by (simp add: group_ok_def)
  have nz: "?t1 \<noteq> 0" "?t2 \<noteq> 0" "?t3 \<noteq> 0"
    using ok b G by (simp_all add: zsmul_nonzero_small hash_nonzero)
  have p: "proveSuccess cv kp ?hs0 ?hs1 ?c0 ?c1 rd = Some ?sp"
    using b b0 by (simp add: proveSuccess_def rz Let_def ScalarMult_zsmul [OF ok(1)]
        ScalarBaseMult_zsmul [OF ok(1)] SetBytes_Bytes)
  have res0: "0 \<le> ?res" using ok(1) by (rule gf_nonneg)
  have ch0: "0 \<le> ?ch" using ok(3) by (rule hashZ_nonneg)
  have parse: "ProofOfSuccess_parse cv (Some ?sp) = Inr (?t1, ?t2, ?t3, ?res)"
    using nz res0 by (simp add: ProofOfSuccess_parse_def codec_decode [OF ok(2)] SetBytes_Bytes)
  have e1: "?t1 + zsmul ?ch ?c0 = zsmul ?res ?hs0"
    by (simp add: gf_MulBytes_def zsmul_gf [OF ok(1)] zsmul_commute)
  have e2: "?t2 + zsmul ?ch ?c1 = zsmul ?res ?hs1"
    by (simp add: gf_MulBytes_def zsmul_gf [OF ok(1)] zsmul_commute)
  have e3: "?t3 + zsmul ?ch (serverPublicKey c) = zsmul ?res (curveG cv)"
    by (simp add: Y gf_MulBytes_def zsmul_gf [OF ok(1)] zsmul_commute)
  have "validateProofOfSuccess cv c (Some ?sp) ns ?c0 ?c1 (Marshal cv ?c0) (Marshal cv ?c1)"
    unfolding validateProofOfSuccess_def parse
    using e1 e2 e3 ch0 res0
    by (simp add: Let_def Yb ScalarMultInt_zsmul [OF ok(1)]
        ScalarBaseMultInt_zsmul [OF ok(1)])
  with p show ?thesis by blast
qed

lemma verify_flow:
  fixes cv :: "'p::ab_group_add primitives"
  assumes ok: "group_ok cv" "codec_ok cv" "hash_ok cv"
    and kp: "unmarshalKeypair cv skp = Inr kp"
    and en: "enrolled cv kp c pw rec m"
    and rz: "randomZ cv rd_v = Some k" and k0: "0 < k"
  shows "\<exists>req vresp c0 c1.
      CreateVerifyPasswordRequest cv c pw (Some rec) = (Some req, None) \<and>
      VerifyPassword cv skp (Some req) rd_v rd_r rd_a rd_b = Some (Some vresp, None) \<and>
      Res vresp \<and> ProofFail vresp = None \<and>
      PointUnmarshal cv (req_C0 req) = Inr c0 \<and>
      PointUnmarshal cv (resp_C1 vresp) = Inr c1 \<and>
      validateProofOfSuccess cv c (ProofSuccess vresp) (rec_NS rec) c0 c1
        (req_C0 req) (resp_C1 vresp) \<and>
      CheckResponseAndDecrypt cv c pw (Some rec) (Some vresp)
        = Inr (Some (hkdf_Secret cv (Marshal cv m)), None)"
proof -
  let ?y = "SetBytes (PrivateKey kp)" and ?x = "clientPrivateKey c"
  let ?hs0 = "hashToPoint cv dhs0 [rec_NS rec]" and ?hs1 = "hashToPoint cv dhs1 [rec_NS rec]"
  let ?hc0 = "hashToPoint cv dhc0 [rec_NC rec, pw]" and ?hc1 = "hashToPoint cv dhc1 [rec_NC rec, pw]"
  let ?t0 = "zsmul ?y ?hs0 + zsmul ?x ?hc0"
  let ?t1 = "zsmul ?y ?hs1 + zsmul ?x ?hc1 + zsmul ?x m"
  let ?c0 = "zsmul ?y ?hs0" and ?c1 = "zsmul ?y ?hs1"
  from en have y: "?y mod curve_N cv \<noteq> 0" and x0: "0 \<le> ?x" and x: "?x mod curve_N cv \<noteq> 0"
    and Y: "serverPublicKey c = zsmul ?y (curveG cv)"
    and Yb: "serverPublicKeyBytes c = PublicKey kp"
    and len: "0 < length (rec_NS rec)" "length (rec_NS rec) \<le> 32" "0 < length (rec_NC rec)"
    and nz: "?t0 \<noteq> 0" "?t1 \<noteq> 0"
    and T: "rec_T0 rec = Marshal cv ?t0" "rec_T1 rec = Marshal cv ?t1"
    by (simp_all add: enrolled_def Let_def)
  have c0nz: "?c0 \<noteq> 0" and c1nz: "?c1 \<noteq> 0"
    using ok y by (simp_all add: zsmul_nonzero hash_nonzero)
  have neg0: "0 \<le> gf_Neg cv ?x" using ok(1) by (rule gf_nonneg)
  have c0eq: "?t0 + ScalarMultInt cv ?hc0 (gf_Neg cv ?x) = ?c0"
    using neg0 by (simp add: ScalarMultInt_zsmul [OF ok(1)] zsmul_gf [OF ok(1)])
  let ?req = "\<lparr>req_NS = rec_NS rec, req_C0 = Marshal cv ?c0\<rparr>"
  have T0len: "length (rec_T0 rec) \<noteq> 0" using ok(2) T by (simp add: codec_ok_def)
  have req: "CreateVerifyPasswordRequest cv c pw (Some rec) = (Some ?req, None)"
    using len T0len nz
    by (simp add: CreateVerifyPasswordRequest_def Let_def T codec_decode [OF ok(2)] c0eq)
  obtain sp where sp: "proveSuccess cv kp ?hs0 ?hs1 ?c0 ?c1 rd_v = Some sp"
    and valid: "validateProofOfSuccess cv c (Some sp) (rec_NS rec) ?c0 ?c1
        (Marshal cv ?c0) (Marshal cv ?c1)"
    using proveSuccess_verifies [where rd = rd_v and ns = "rec_NS rec", OF ok Y Yb rz k0] by blast
  let ?vresp = "\<lparr>Res = True, resp_C1 = Marshal cv ?c1, ProofSuccess = Some sp,
     ProofFail = None\<rparr>"
  have vp: "VerifyPassword cv skp (Some ?req) rd_v rd_r rd_a rd_b = Some (Some ?vresp, None)"
    using len c0nz
    by (simp add: VerifyPassword_def kp Let_def codec_decode [OF ok(2)]
        ScalarMult_zsmul [OF ok(1)] sp)
  obtain xi where xi: "gf_Inv cv ?x = Some xi" and xi0: "0 \<le> xi"
    and inv: "\<And>p::'p. zsmul xi (zsmul ?x p) = p"
    using gf_Inv_correct [OF ok(1) x] by blast
  have parse: "EnrollmentRecord_parse cv (Some rec) = Inr (?t0, ?t1)"
    using nz by (simp add: EnrollmentRecord_parse_def T codec_decode [OF ok(2)])
  have meq: "ScalarMultInt cv (?t1 + (- ?c1) + ScalarMultInt cv ?hc1 (gf_Neg cv ?x)) xi = m"
    using neg0 xi0 by (simp add: ScalarMultInt_zsmul [OF ok(1)] zsmul_gf [OF ok(1)] inv)
  have chk: "CheckResponseAndDecrypt cv c pw (Some rec) (Some ?vresp)
      = Inr (Some (hkdf_Secret cv (Marshal cv m)), None)"
    using c1nz valid neg0 xi0
    by (simp add: CheckResponseAndDecrypt_def parse codec_decode [OF ok(2)] Let_def c0eq xi
        ScalarMultInt_zsmul [OF ok(1)] zsmul_gf [OF ok(1)] inv)
  have "PointUnmarshal cv (req_C0 ?req) = Inr ?c0" "PointUnmarshal cv (resp_C1 ?vresp) = Inr ?c1"
    using c0nz c1nz by (simp_all add: codec_decode [OF ok(2)])
  with req vp valid chk show ?thesis
    by (intro exI [of _ ?req] exI [of _ ?vresp] exI [of _ ?c0] exI [of _ ?c1]) simp
qed

lemma Z13_Rep_numeral: "Rep_bit1 (numeral w :: 13) = numeral w mod 13"
  using bit1.Rep_numeral [where 'a = 6, of w] by simp

lemma Z13_Rep_1: "Rep_bit1 (1 :: 13) = 1"
  using bit1.Rep_1 [where 'a = 6] by simp

lemma SetBytes_Cons_zero: "SetBytes (0 # xs) = SetBytes xs"
  by (simp add: SetBytes_def)

lemma SetBytes_replicate_zero: "SetBytes (replicate n 0 @ xs) = SetBytes xs"
  by (induction n) (simp_all add: SetBytes_Cons_zero)

lemma Z13_fields:
  "curve_N Z13 = 13"
  "curveG Z13 = 1"
  "Marshal Z13 p = [0x04, of_int (Rep_bit1 p)]"
  "PointUnmarshal Z13 [t, v] =
     (if t = 0x04 \<and> 0 < uint v \<and> uint v < 13 then Inr (of_int (uint v))
      else Inl (errors_New ''Invalid curve point''))"
  "hashToPoint Z13 tag fs = Z13_point (digest tag fs)"
  "hashZ Z13 tag fs = int (digest tag fs) mod 13"
  "hkdf_Secret Z13 ikm = ikm"
  "marshalKeypair Z13 pub priv =
     (if length pub < 256 then Inr (of_nat (length pub) # pub @ priv)
      else Inl (errors_New ''public key too long''))"
  "unmarshalKeypair Z13 (l # rest) =
     (if unat l \<le> length rest
      then Inr \<lparr>PublicKey = take (unat l) rest, PrivateKey = drop (unat l) rest\<rparr>
      else Inl (errors_New ''invalid keypair''))"
  by (simp_all add: Z13_def)

lemma SetBytes_draw: "SetBytes (draw v i) = uint v"
  by (simp add: draw_def SetBytes_replicate_zero) (simp add: SetBytes_def)

lemma randomZ_draw: "uint v < 13 \<Longrightarrow> randomZ Z13 (draw v) = Some (uint v)"
  by (simp add: randomZ_def randomZ_loop.simps [of 13 "draw v" 0] SetBytes_draw Z13_fields)

lemma Bytes_zero: "Bytes 0 = []"
  by (simp add: Bytes_def nat_Bytes.simps)

lemma Bytes_small: "0 < k \<Longrightarrow> k < 256 \<Longrightarrow> Bytes k = [of_int k]"
  by (simp add: Bytes_def nat_Bytes.simps [of "nat k"] nat_Bytes.simps [of 0])

lemmas Z13_eval = Z13_fields Let_def SetBytes_def Bytes_zero Bytes_small nsmul_ring digest_def
  Z13_point_def dhc0_def dhc1_def dhs0_def dhs1_def dm_def proofOk_def proofError_def
  gf_Add_def gf_Mul_def gf_Neg_def gf_AddBytes_def gf_MulBytes_def
  ScalarMult_def ScalarMultInt_def ScalarBaseMult_def ScalarBaseMultInt_def
  Z13_Rep_numeral Z13_Rep_1 bit1.Rep_0 randomZ_draw

lemma Z13_VerifyPassword_right:
  "VerifyPassword Z13 [2, 4, 3, 3] (Some \<lparr>req_NS = replicate 32 1, req_C0 = [4, 12]\<rparr>)
       (draw 7) (draw 2) (draw 3) (draw 4)
     = Some (Some \<lparr>Res = True, resp_C1 = [4, 8],
                   ProofSuccess = Some \<lparr>pos_Term1 = [4, 2], pos_Term2 = [4, 10],
                                         pos_Term3 = [4, 7], BlindX = [12]\<rparr>,
                   ProofFail = None\<rparr>, None)"
  by (simp add: VerifyPassword_def proveSuccess_def Z13_eval)

lemma Z13_VerifyPassword_wrong:
  "VerifyPassword Z13 [2, 4, 3, 3] (Some \<lparr>req_NS = replicate 32 1, req_C0 = [4, 10]\<rparr>)
       (draw 7) (draw 2) (draw 3) (draw 4)
     = Some (Some \<lparr>Res = False, resp_C1 = [4, 9], ProofSuccess = None,
                   ProofFail = Some \<lparr>pof_Term1 = [4, 4], pof_Term2 = [4, 3],
                                      pof_Term3 = [4, 9], pof_Term4 = [4, 4],
                                      BlindA = [8], BlindB = [2]\<rparr>\<rparr>, None)"
  by (simp add: VerifyPassword_def proveFailure_def Z13_eval)

lemma zsmul_pt_diff: "zsmul k (p - q) = zsmul k p - zsmul k q"
  using zsmul_pt_add [of k p "- q"] by (simp add: zsmul_pt_uminus)

lemma zsmul_zero_mod:
  fixes cv :: "'p::ab_group_add primitives" and p :: 'p
  assumes "group_ok cv" and "k mod curve_N cv = 0"
  shows "zsmul k p = 0"
  using zsmul_mod [OF assms(1), of k p] assms(2) by simp

lemma enroll_flow:
  fixes cv :: "'p::ab_group_add primitives"
  assumes ok: "group_ok cv" "codec_ok cv" "hash_ok cv" "keypair_codec_ok cv"
    and kg: "GenerateServerKeypair cv rd_k = Some (Inr skp)"
    and pk: "GetPublicKey cv skp = (Some pub, None)"
    and cl: "NewClient cv xb pub = Inr c"
    and x: "SetBytes xb mod curve_N cv \<noteq> 0"
    and ns: "0 < length ns" "length ns \<le> 32" and nc: "0 < length nc"
    and rz: "randomZ cv rd_e = Some e" and e0: "0 < e"
  shows "\<exists>kp resp rec m.
      unmarshalKeypair cv skp = Inr kp \<and>
      GetEnrollment cv skp (Inr ns) rd_e = Some (Some resp, None) \<and>
      EnrollAccount cv c pw (Some resp) (Inr nc) (Inr mBuf)
        = Inr (Some rec, Some (hkdf_Secret cv (Marshal cv m)), None) \<and>
      ((\<exists>t0 t1. EnrollmentRecord_parse cv (Some rec) = Inr (t0, t1)) \<longrightarrow>
         enrolled cv kp c pw rec m)"
proof -
  from kg obtain z where z: "randomZ cv rd_k = Some z"
    and mk: "marshalKeypair cv (Marshal cv (ScalarBaseMult cv (Bytes z))) (Bytes z) = Inr skp"
    by (auto simp add: GenerateServerKeypair_def Let_def split: option.splits)
  let ?y = "SetBytes (Bytes z)"
  let ?Y = "zsmul ?y (curveG cv)"
  let ?kp = "\<lparr>PublicKey = Marshal cv ?Y, PrivateKey = Bytes z\<rparr>"
  have Yeq: "ScalarBaseMult cv (Bytes z) = ?Y"
    by (rule ScalarBaseMult_zsmul [OF ok(1)])
  have kp: "unmarshalKeypair cv skp = Inr ?kp"
    using ok(4) mk unfolding Yeq by (simp add: keypair_codec_ok_def)
  have pub: "pub = Marshal cv ?Y"
    using pk by (simp add: GetPublicKey_def kp)
  from cl obtain Yc where Yc: "PointUnmarshal cv pub = Inr Yc"
    and c: "c = \<lparr>clientPrivateKey = SetBytes xb, clientPrivateKeyBytes = xb,
                  serverPublicKey = Yc, serverPublicKeyBytes = pub\<rparr>"
    by (auto simp add: NewClient_def split: if_splits sum.splits)
  have YcY: "Yc = ?Y" and Ynz: "?Y \<noteq> 0"
    using codec_same [OF ok(2), of ?Y Yc] Yc pub by simp_all
  have y: "?y mod curve_N cv \<noteq> 0"
    using Ynz zsmul_zero_mod [OF ok(1), of ?y "curveG cv"] by auto
  let ?x = "SetBytes xb"
  have x0: "0 \<le> ?x" by (rule SetBytes_nonneg)
  let ?hs0 = "hashToPoint cv dhs0 [ns]" and ?hs1 = "hashToPoint cv dhs1 [ns]"
  let ?hc0 = "hashToPoint cv dhc0 [nc, pw]" and ?hc1 = "hashToPoint cv dhc1 [nc, pw]"
  let ?m = "hashToPoint cv dm [mBuf]"
  let ?c0 = "zsmul ?y ?hs0" and ?c1 = "zsmul ?y ?hs1"
  let ?t0 = "?c0 + zsmul ?x ?hc0" and ?t1 = "?c1 + zsmul ?x ?hc1 + zsmul ?x ?m"
  have cY: "serverPublicKey c = ?Y" and cYb: "serverPublicKeyBytes c = PublicKey ?kp"
    and cx: "clientPrivateKey c = ?x"
    using c YcY pub by simp_all
  obtain sp where sp: "proveSuccess cv ?kp ?hs0 ?hs1 ?c0 ?c1 rd_e = Some sp"
    and valid: "validateProofOfSuccess cv c (Some sp) ns ?c0 ?c1 (Marshal cv ?c0) (Marshal cv ?c1)"
    using proveSuccess_verifies [where rd = rd_e and ns = ns and kp = ?kp and c = c,
        OF ok(1,2,3) _ _ rz e0] cY cYb by auto
  let ?resp = "\<lparr>enr_NS = ns, enr_C0 = Marshal cv ?c0, enr_C1 = Marshal cv ?c1,
     enr_Proof = Some sp\<rparr>"
  have ge: "GetEnrollment cv skp (Inr ns) rd_e = Some (Some ?resp, None)"
    using sp by (simp add: GetEnrollment_def kp eval_kp_def Let_def ScalarMult_zsmul [OF ok(1)])
  have c0nz: "?c0 \<noteq> 0" and c1nz: "?c1 \<noteq> 0"
    using ok y by (simp_all add: zsmul_nonzero hash_nonzero)
  let ?rec = "\<lparr>rec_NS = ns, rec_NC = nc, rec_T0 = Marshal cv ?t0, rec_T1 = Marshal cv ?t1\<rparr>"
  have ea: "EnrollAccount cv c pw (Some ?resp) (Inr nc) (Inr mBuf)
      = Inr (Some ?rec, Some (hkdf_Secret cv (Marshal cv ?m)), None)"
    using c0nz c1nz valid x0
    by (simp add: EnrollAccount_def codec_decode [OF ok(2)] Let_def cx
        ScalarMultInt_zsmul [OF ok(1)])
  have en: "enrolled cv ?kp c pw ?rec ?m"
    if "\<exists>t0 t1. EnrollmentRecord_parse cv (Some ?rec) = Inr (t0, t1)"
  proof -
    from that obtain q0 q1 where "PointUnmarshal cv (Marshal cv ?t0) = Inr q0"
      "PointUnmarshal cv (Marshal cv ?t1) = Inr q1"
      by (auto simp add: EnrollmentRecord_parse_def split: sum.splits)
    then have "?t0 \<noteq> 0" "?t1 \<noteq> 0"
      using codec_same(2) [OF ok(2)] by blast+
    then show ?thesis
      using y x x0 ns nc cY cYb cx
      by (simp add: enrolled_def Let_def)
  qed
  show ?thesis
    using kp ge ea en by blast
qed

lemma Z13_GenerateServerKeypair: "GenerateServerKeypair Z13 (draw 3) = Some (Inr [2, 4, 3, 3])"
  by (simp add: GenerateServerKeypair_def Z13_eval)

lemma Z13_GetPublicKey: "GetPublicKey Z13 [2, 4, 3, 3] = (Some [4, 3], None)"
  by (simp add: GetPublicKey_def Z13_eval)

lemma Z13_NewClient:
  "NewClient Z13 [5] [4, 3]
     = Inr \<lparr>clientPrivateKey = 5, clientPrivateKeyBytes = [5], serverPublicKey = 3,
            serverPublicKeyBytes = [4, 3]\<rparr>"
  by (simp add: NewClient_def Z13_eval)

lemma Z13_GetEnrollment:
  "GetEnrollment Z13 [2, 4, 3, 3] (Inr (replicate 32 1)) (draw 5)
     = Some (Some \<lparr>enr_NS = replicate 32 1, enr_C0 = [4, 12], enr_C1 = [4, 8],
                   enr_Proof = Some \<lparr>pos_Term1 = [4, 7], pos_Term2 = [4, 9],
                                      pos_Term3 = [4, 5], BlindX = [10]\<rparr>\<rparr>, None)"
  by (simp add: GetEnrollment_def eval_kp_def proveSuccess_def Z13_eval)

lemma Z13_EnrollAccount:
  "EnrollAccount Z13
      \<lparr>clientPrivateKey = 5, clientPrivateKeyBytes = [5], serverPublicKey = 3,
       serverPublicKeyBytes = [4, 3]\<rparr>
      [112, 119]
      (Some \<lparr>enr_NS = replicate 32 1, enr_C0 = [4, 12], enr_C1 = [4, 8],
             enr_Proof = Some \<lparr>pos_Term1 = [4, 7], pos_Term2 = [4, 9],
                                pos_Term3 = [4, 5], BlindX = [10]\<rparr>\<rparr>)
      (Inr (replicate 32 2)) (Inr (replicate 32 3))
     = Inr (Some \<lparr>rec_NS = replicate 32 1, rec_NC = replicate 32 2, rec_T0 = [4, 6],
                   rec_T1 = [4, 9]\<rparr>, Some [4, 1], None)"
  by (simp add: EnrollAccount_def validateProofOfSuccess_def ProofOfSuccess_parse_def Z13_eval)

lemma Z13_CreateVerifyPasswordRequest:
  "CreateVerifyPasswordRequest Z13
      \<lparr>clientPrivateKey = 5, clientPrivateKeyBytes = [5], serverPublicKey = 3,
       serverPublicKeyBytes = [4, 3]\<rparr>
      [112, 119]
      (Some \<lparr>rec_NS = replicate 32 1, rec_NC = replicate 32 2, rec_T0 = [4, 6],
             rec_T1 = [4, 9]\<rparr>)
     = (Some \<lparr>req_NS = replicate 32 1, req_C0 = [4, 12]\<rparr>, None)"
  by (simp add: CreateVerifyPasswordRequest_def Z13_eval)




lemma Z13_gf_Inv_0: "gf_Inv Z13 0 = None"
  by (simp add: gf_Inv_def Z13_fields)

lemma Z13_randomZ:
  "randomZ Z13 (draw 2) = Some 2" "randomZ Z13 (draw 3) = Some 3" "randomZ Z13 (draw 4) = Some 4"
  "randomZ Z13 (draw 5) = Some 5" "randomZ Z13 (draw 6) = Some 6" "randomZ Z13 (draw 7) = Some 7"
  "randomZ Z13 (draw 0) = Some 0"
  by (simp_all add: randomZ_draw)

lemma proveFailure_verifies:
  fixes cv :: "'p::ab_group_add primitives"
  assumes ok: "group_ok cv" "codec_ok cv" "hash_ok cv"
    and y: "SetBytes (PrivateKey kp) mod curve_N cv \<noteq> 0"
    and pk: "PublicKey kp = Marshal cv (zsmul (SetBytes (PrivateKey kp)) (curveG cv))"
    and cY: "serverPublicKey c = zsmul (SetBytes (PrivateKey kp)) (curveG cv)"
    and cYb: "serverPublicKeyBytes c = PublicKey kp"
    and c0: "c0 \<noteq> 0" "c0 \<noteq> zsmul (SetBytes (PrivateKey kp)) hs0"
    and hs0: "hs0 \<noteq> 0"
    and rz: "randomZ cv rd_r = Some kr" "randomZ cv rd_a = Some ka" "randomZ cv rd_b = Some kb"
    and pos: "0 < kr" "0 < ka" "0 < kb"
  shows "\<exists>c1 fp.
      proveFailure cv kp c0 hs0 rd_r rd_a rd_b = Some (c1, Some fp, None) \<and> c1 \<noteq> 0 \<and>
      validateProofOfFail cv c
        \<lparr>Res = False, resp_C1 = Marshal cv c1, ProofSuccess = None, ProofFail = Some fp\<rparr>
        c0 c1 hs0 hc0 hc1 = None"
proof -
  let ?y = "SetBytes (PrivateKey kp)"
  let ?r = kr and ?a = ka and ?b = kb
  have r: "0 < kr" "kr < curve_N cv" using pos(1) randomZ_range(2) [OF rz(1)] by simp_all
  have a: "0 < ka" "ka < curve_N cv" using pos(2) randomZ_range(2) [OF rz(2)] by simp_all
  have b: "0 < kb" "kb < curve_N cv" using pos(3) randomZ_range(2) [OF rz(3)] by simp_all
  let ?G = "curveG cv"
  let ?Y = "zsmul ?y ?G"
  let ?mrx = "gf_MulBytes cv (PrivateKey kp) (gf_Neg cv ?r)"
  let ?c1 = "zsmul ?r c0 + zsmul ?mrx hs0"
  let ?t1 = "zsmul ?a c0" and ?t2 = "zsmul ?b hs0" and ?t3 = "zsmul ?a ?Y" and ?t4 = "zsmul ?b ?G"
  let ?ch = "hashZ cv proofError [PublicKey kp, Marshal cv ?G, Marshal cv c0, Marshal cv ?c1,
     Marshal cv ?t1, Marshal cv ?t2, Marshal cv ?t3, Marshal cv ?t4]"
  let ?ra = "gf_AddBytes cv (Bytes ?a) (gf_Mul cv ?ch ?r)"
  let ?rb = "gf_AddBytes cv (Bytes ?b) (gf_Mul cv ?ch ?mrx)"
  let ?fp = "\<lparr>pof_Term1 = Marshal cv ?t1, pof_Term2 = Marshal cv ?t2,
     pof_Term3 = Marshal cv ?t3, pof_Term4 = Marshal cv ?t4,
     BlindA = Bytes ?ra, BlindB = Bytes ?rb\<rparr>"
  have G: "?G \<noteq> 0" using ok(1) by (simp add: group_ok_def)
  have Y: "?Y \<noteq> 0" using ok(1) G y by (rule zsmul_nonzero)
  have nn: "0 \<le> ?r" "0 \<le> ?a" "0 \<le> ?b" using pos by simp_all
  have mrx: "zsmul ?mrx p = - zsmul ?r (zsmul ?y p)" for p :: 'p
    by (simp add: gf_MulBytes_def zsmul_gf [OF ok(1)] zsmul_pt_uminus zsmul_commute)
  have c1: "?c1 = zsmul ?r (c0 - zsmul ?y hs0)"
    by (simp add: mrx zsmul_pt_diff)
  have c1nz: "?c1 \<noteq> 0"
    unfolding c1 using ok(1) c0(2) r by (intro zsmul_nonzero_small) simp_all
  have tnz: "?t1 \<noteq> 0" "?t2 \<noteq> 0" "?t3 \<noteq> 0" "?t4 \<noteq> 0"
    using ok(1) c0(1) hs0 Y G a b by (simp_all add: zsmul_nonzero_small)
  have pkdec: "PointUnmarshal cv (PublicKey kp) = Inr ?Y"
    using Y by (simp add: pk codec_decode [OF ok(2)])
  have "0 \<le> ?mrx" unfolding gf_MulBytes_def using ok(1) by (rule gf_nonneg)
  then have mrx0: "\<bar>?mrx\<bar> = ?mrx" by simp
  have pf: "proveFailure cv kp c0 hs0 rd_r rd_a rd_b = Some (?c1, Some ?fp, None)"
    using r a b nn
    by (simp add: proveFailure_def rz Let_def pkdec ScalarMult_zsmul [OF ok(1)]
        ScalarBaseMult_zsmul [OF ok(1)] SetBytes_Bytes mrx0)
  have ra0: "0 \<le> ?ra" and rb0: "0 \<le> ?rb"
    unfolding gf_AddBytes_def using ok(1) by (rule gf_nonneg)+
  have ch0: "0 \<le> ?ch" using ok(3) by (rule hashZ_nonneg)
  have parse: "ProofOfFail_parse cv (Some ?fp) = Inr (?t1, ?t2, ?t3, ?t4, ?ra, ?rb)"
    using tnz ra0 rb0
    by (simp add: ProofOfFail_parse_def codec_decode [OF ok(2)] SetBytes_Bytes)
  have za: "zsmul (gf_AddBytes cv (Bytes ?a) (gf_Mul cv ch ?r)) p
      = zsmul ?a p + zsmul ch (zsmul ?r p)" for p :: 'p and ch
    using nn by (simp add: gf_AddBytes_def zsmul_gf [OF ok(1)] SetBytes_Bytes)
  have zb: "zsmul (gf_AddBytes cv (Bytes ?b) (gf_Mul cv ch ?mrx)) p
      = zsmul ?b p - zsmul ch (zsmul ?r (zsmul ?y p))" for p :: 'p and ch
    using nn by (simp add: gf_AddBytes_def zsmul_gf [OF ok(1)] SetBytes_Bytes mrx zsmul_pt_uminus)
  have g1: "?t1 + ?t2 + zsmul ch ?c1
      = zsmul (gf_AddBytes cv (Bytes ?a) (gf_Mul cv ch ?r)) c0
        + zsmul (gf_AddBytes cv (Bytes ?b) (gf_Mul cv ch ?mrx)) hs0" for ch
    unfolding za zb by (simp add: mrx zsmul_pt_add zsmul_pt_uminus zsmul_pt_diff)
  have g2: "?t3 + ?t4
      = zsmul (gf_AddBytes cv (Bytes ?a) (gf_Mul cv ch ?r)) ?Y
        + zsmul (gf_AddBytes cv (Bytes ?b) (gf_Mul cv ch ?mrx)) ?G" for ch
    unfolding za zb by (simp add: zsmul_commute [of ?y])
  have e1: "?t1 + ?t2 + zsmul ?ch ?c1 = zsmul ?ra c0 + zsmul ?rb hs0"
    by (rule g1)
  have e2: "?t3 + ?t4 = zsmul ?ra ?Y + zsmul ?rb ?G"
    by (rule g2)
  have "validateProofOfFail cv c
        \<lparr>Res = False, resp_C1 = Marshal cv ?c1, ProofSuccess = None, ProofFail = Some ?fp\<rparr>
        c0 ?c1 hs0 hc0 hc1 = None"
    using e1 e2 ch0 ra0 rb0
    by (simp add: validateProofOfFail_def parse Let_def cY cYb ScalarMultInt_zsmul [OF ok(1)]
        ScalarBaseMultInt_zsmul [OF ok(1)])
  with pf c1nz show ?thesis by blast
qed


lemma Z13_CreateVerifyPasswordRequest_wrong:
  "CreateVerifyPasswordRequest Z13
      \<lparr>clientPrivateKey = 5, clientPrivateKeyBytes = [5], serverPublicKey = 3,
       serverPublicKeyBytes = [4, 3]\<rparr>
      [112, 119, 50]
      (Some \<lparr>rec_NS = replicate 32 1, rec_NC = replicate 32 2, rec_T0 = [4, 6],
             rec_T1 = [4, 9]\<rparr>)
     = (Some \<lparr>req_NS = replicate 32 1, req_C0 = [4, 10]\<rparr>, None)"
  by (simp add: CreateVerifyPasswordRequest_def Z13_eval)

lemma Z13_validateProofOfFail:
  "validateProofOfFail Z13
      \<lparr>clientPrivateKey = 5, clientPrivateKeyBytes = [5], serverPublicKey = 3,
       serverPublicKeyBytes = [4, 3]\<rparr>
      \<lparr>Res = False, resp_C1 = [4, 9], ProofSuccess = None,
       ProofFail = Some \<lparr>pof_Term1 = [4, 4], pof_Term2 = [4, 3], pof_Term3 = [4, 9],
                          pof_Term4 = [4, 4], BlindA = [8], BlindB = [2]\<rparr>\<rparr>
      10 9 (hashToPoint Z13 dhs0 [replicate 32 1])
      (hashToPoint Z13 dhc0 [replicate 32 2, [112, 119, 50]])
      (hashToPoint Z13 dhc1 [replicate 32 2, [112, 119, 50]]) = None"
  by (simp add: validateProofOfFail_def ProofOfFail_parse_def Z13_eval)

lemma Z13_CheckResponseAndDecrypt_wrong:
  "CheckResponseAndDecrypt Z13
      \<lparr>clientPrivateKey = 5, clientPrivateKeyBytes = [5], serverPublicKey = 3,
       serverPublicKeyBytes = [4, 3]\<rparr>
      [112, 119, 50]
      (Some \<lparr>rec_NS = replicate 32 1, rec_NC = replicate 32 2, rec_T0 = [4, 6],
             rec_T1 = [4, 9]\<rparr>)
      (Some \<lparr>Res = False, resp_C1 = [4, 9], ProofSuccess = None,
             ProofFail = Some \<lparr>pof_Term1 = [4, 4], pof_Term2 = [4, 3], pof_Term3 = [4, 9],
                                pof_Term4 = [4, 4], BlindA = [8], BlindB = [2]\<rparr>\<rparr>)
     = Inr (None, None)"
  by (simp add: CheckResponseAndDecrypt_def EnrollmentRecord_parse_def
      validateProofOfFail_def ProofOfFail_parse_def Z13_eval)

lemma Z13_enrolled:
  "enrolled Z13 \<lparr>PublicKey = [4, 3], PrivateKey = [3]\<rparr>
      \<lparr>clientPrivateKey = 5, clientPrivateKeyBytes = [5], serverPublicKey = 3,
       serverPublicKeyBytes = [4, 3]\<rparr>
      [112, 119]
      \<lparr>rec_NS = replicate 32 1, rec_NC = replicate 32 2, rec_T0 = [4, 6], rec_T1 = [4, 9]\<rparr>
      1"
  by (simp add: enrolled_def zsmul_def Z13_eval)

lemma validateProofOfFail_None_iff:
  fixes cv :: "'p::ab_group_add primitives"
  shows "validateProofOfFail cv c rs c0 c1 hs0 hc0 hc1 = None \<longleftrightarrow>
     (\<exists>fp term1 term2 term3 term4.
        ProofFail rs = Some fp \<and>
        PointUnmarshal cv (pof_Term1 fp) = Inr term1 \<and>
        PointUnmarshal cv (pof_Term2 fp) = Inr term2 \<and>
        PointUnmarshal cv (pof_Term3 fp) = Inr term3 \<and>
        PointUnmarshal cv (pof_Term4 fp) = Inr term4 \<and>
        (let challenge = hashZ cv proofError
               [serverPublicKeyBytes c, Marshal cv (curveG cv), Marshal cv c0, resp_C1 rs,
                pof_Term1 fp, pof_Term2 fp, pof_Term3 fp, pof_Term4 fp];
             blindA = SetBytes (BlindA fp);
             blindB = SetBytes (BlindB fp)
         in term1 + term2 + ScalarMultInt cv c1 challenge
              = ScalarMultInt cv c0 blindA + ScalarMultInt cv hs0 blindB \<and>
            term3 + term4
              = ScalarMultInt cv (serverPublicKey c) blindA + ScalarBaseMultInt cv blindB))"
  by (cases "ProofFail rs")
    (auto simp add: validateProofOfFail_def ProofOfFail_parse_def Let_def split: sum.splits)

lemma validateProofOfFail_invalid_iff:
  fixes cv :: "'p::ab_group_add primitives"
  shows "validateProofOfFail cv c rs c0 c1 hs0 hc0 hc1 = Some (errors_New ''invalid public key'')
     \<longleftrightarrow>
     \<not> (\<exists>fp term1 term2 term3 term4.
          ProofFail rs = Some fp \<and>
          PointUnmarshal cv (pof_Term1 fp) = Inr term1 \<and>
          PointUnmarshal cv (pof_Term2 fp) = Inr term2 \<and>
          PointUnmarshal cv (pof_Term3 fp) = Inr term3 \<and>
          PointUnmarshal cv (pof_Term4 fp) = Inr term4)"
  by (cases "ProofFail rs")
    (auto simp add: validateProofOfFail_def ProofOfFail_parse_def Let_def split: sum.splits)

lemma validateProofOfFail_decoded:
  fixes cv :: "'p::ab_group_add primitives"
  assumes "ProofFail rs = Some fp"
    and "PointUnmarshal cv (pof_Term1 fp) = Inr term1"
    and "PointUnmarshal cv (pof_Term2 fp) = Inr term2"
    and "PointUnmarshal cv (pof_Term3 fp) = Inr term3"
    and "PointUnmarshal cv (pof_Term4 fp) = Inr term4"
  shows "validateProofOfFail cv c rs c0 c1 hs0 hc0 hc1 =
     (let challenge = hashZ cv proofError
            [serverPublicKeyBytes c, Marshal cv (curveG cv), Marshal cv c0, resp_C1 rs,
             pof_Term1 fp, pof_Term2 fp, pof_Term3 fp, pof_Term4 fp];
          blindA = SetBytes (BlindA fp);
          blindB = SetBytes (BlindB fp)
      in if term1 + term2 + ScalarMultInt cv c1 challenge
              \<noteq> ScalarMultInt cv c0 blindA + ScalarMultInt cv hs0 blindB
         then Some (errors_New ''proof verification failed'')
         else if term3 + term4
              \<noteq> ScalarMultInt cv (serverPublicKey c) blindA + ScalarBaseMultInt cv blindB
         then Some (errors_New ''verification failed'')
         else None)"
  by (simp add: validateProofOfFail_def ProofOfFail_parse_def Let_def assms)

lemma Z13_CheckResponseAndDecrypt_tampered:
  "CheckResponseAndDecrypt Z13
      \<lparr>clientPrivateKey = 5, clientPrivateKeyBytes = [5], serverPublicKey = 3,
       serverPublicKeyBytes = [4, 3]\<rparr>
      [112, 119, 50]
      (Some \<lparr>rec_NS = replicate 32 1, rec_NC = replicate 32 2, rec_T0 = [4, 6],
             rec_T1 = [4, 9]\<rparr>)
      (Some \<lparr>Res = False, resp_C1 = [4, 9], ProofSuccess = None,
             ProofFail = Some \<lparr>pof_Term1 = [4, 4], pof_Term2 = [4, 3], pof_Term3 = [4, 9],
                                pof_Term4 = [4, 4], BlindA = [9], BlindB = [2]\<rparr>\<rparr>)
     = Inr (None, Some (errors_New ''proof verification failed''))"
  by (simp add: CheckResponseAndDecrypt_def EnrollmentRecord_parse_def
      validateProofOfFail_def ProofOfFail_parse_def Z13_eval)







lemma Z13_CreateVerifyPasswordRequest_rotated:
  "CreateVerifyPasswordRequest Z13
      \<lparr>clientPrivateKey = 10, clientPrivateKeyBytes = [10], serverPublicKey = 12,
       serverPublicKeyBytes = [4, 12]\<rparr>
      [112, 119]
      (Some \<lparr>rec_NS = replicate 32 1, rec_NC = replicate 32 2, rec_T0 = [4, 10],
             rec_T1 = [4, 8]\<rparr>)
     = (Some \<lparr>req_NS = replicate 32 1, req_C0 = [4, 9]\<rparr>, None)"
  by (simp add: CreateVerifyPasswordRequest_def Z13_eval)









lemma Z13_VerifyPassword_blind_zero:
  "VerifyPassword Z13 [2, 4, 3, 3] (Some \<lparr>req_NS = replicate 32 1, req_C0 = [4, 10]\<rparr>)
       (draw 7) (draw 2) (draw 0) (draw 4)
     = Some (Some \<lparr>Res = False, resp_C1 = [4, 9], ProofSuccess = None,
       ProofFail = Some \<lparr>pof_Term1 = [4, 0], pof_Term2 = [4, 3], pof_Term3 = [4, 0],
                          pof_Term4 = [4, 4], BlindA = [5], BlindB = [2]\<rparr>\<rparr>, None)"
  by (simp add: VerifyPassword_def proveFailure_def Z13_eval)

lemma Z13_validateProofOfFail_blind_zero:
  "validateProofOfFail Z13
      \<lparr>clientPrivateKey = 5, clientPrivateKeyBytes = [5], serverPublicKey = 3,
       serverPublicKeyBytes = [4, 3]\<rparr>
      \<lparr>Res = False, resp_C1 = [4, 9], ProofSuccess = None,
       ProofFail = Some \<lparr>pof_Term1 = [4, 0], pof_Term2 = [4, 3], pof_Term3 = [4, 0],
                          pof_Term4 = [4, 4], BlindA = [5], BlindB = [2]\<rparr>\<rparr>
      10 9 (hashToPoint Z13 dhs0 [replicate 32 1])
      (hashToPoint Z13 dhc0 [replicate 32 2, [112, 119, 50]])
      (hashToPoint Z13 dhc1 [replicate 32 2, [112, 119, 50]])
     = Some (errors_New ''invalid public key'')"
  by (simp add: validateProofOfFail_def ProofOfFail_parse_def Z13_eval)

lemma Z13_CheckResponseAndDecrypt_blind_zero:
  "CheckResponseAndDecrypt Z13
      \<lparr>clientPrivateKey = 5, clientPrivateKeyBytes = [5], serverPublicKey = 3,
       serverPublicKeyBytes = [4, 3]\<rparr>
      [112, 119, 50]
      (Some \<lparr>rec_NS = replicate 32 1, rec_NC = replicate 32 2, rec_T0 = [4, 6],
             rec_T1 = [4, 9]\<rparr>)
      (Some \<lparr>Res = False, resp_C1 = [4, 9], ProofSuccess = None,
       ProofFail = Some \<lparr>pof_Term1 = [4, 0], pof_Term2 = [4, 3], pof_Term3 = [4, 0],
                          pof_Term4 = [4, 4], BlindA = [5], BlindB = [2]\<rparr>\<rparr>)
     = Inr (None, Some (errors_New ''invalid public key''))"
  by (simp add: CheckResponseAndDecrypt_def EnrollmentRecord_parse_def
      validateProofOfFail_def ProofOfFail_parse_def Z13_eval)

section \<open>Claims\<close>

text \<open>
  C3. The claim: RandomZ rejects a draw that is not below the group order and retries
  with a fresh draw, so it never panics. The code: on such a draw both versions of
  RandomZ panic with the drawn bytes. At the draw of 32 bytes 0xFF, on the P-256 order,
  whatever the later draws are, the result is the panic.
\<close>

theorem RandomZ_panics_out_of_range:
  "RandomZ (cv\<lparr>curve_N := P256_N\<rparr>) (\<lambda>i. if i = 0 then replicate 32 0xFF else later i)
     = Inl (panic_bytes (replicate 32 0xFF))
   \<and> RandomZ_bytes (cv\<lparr>curve_N := P256_N\<rparr>) (\<lambda>i. if i = 0 then replicate 32 0xFF else later i)
     = Inl (panic_bytes (replicate 32 0xFF))"
proof -
  have "SetBytes (replicate 32 0xFF) \<ge> P256_N"
    unfolding P256_N_def by code_simp
  then show ?thesis
    by (simp add: RandomZ_unfold RandomZ_bytes_unfold)
qed

text \<open>
  C5. VerifyPassword rejects, with no response, every request whose NS is empty or
  longer than 32 bytes, and the nil request, whatever the other fields and the random
  draws are. The key pair is decoded before the request is looked at: with a key pair
  that decodes, the error is the invalid-request error; with one that does not, the
  call has already returned the decoding error, and no response either.
\<close>

theorem VerifyPassword_rejects_bad_NS:
  assumes "req = None \<or>
     (\<exists>rq. req = Some rq \<and> (length (req_NS rq) = 0 \<or> 32 < length (req_NS rq)))"
  shows "(\<exists>e. VerifyPassword cv skp req rd_s rd_r rd_a rd_b = Some (None, Some e)) \<and>
         (\<forall>kp. unmarshalKeypair cv skp = Inr kp \<longrightarrow>
            VerifyPassword cv skp req rd_s rd_r rd_a rd_b
              = Some (None, Some (errors_New ''Invalid password verify request'')))"
  using assms by (auto simp add: VerifyPassword_def split: sum.splits option.splits)

theorem VerifyPassword_rejects_bad_NS_witness:
  "unmarshalKeypair Z13 [2, 4, 3, 3] = Inr \<lparr>PublicKey = [4, 3], PrivateKey = [3]\<rparr> \<and>
   VerifyPassword Z13 [2, 4, 3, 3] (Some \<lparr>req_NS = [], req_C0 = [4, 12]\<rparr>)
       (draw 7) (draw 2) (draw 3) (draw 4)
     = Some (None, Some (errors_New ''Invalid password verify request'')) \<and>
   VerifyPassword Z13 [2, 4, 3, 3] (Some \<lparr>req_NS = replicate 33 1, req_C0 = [4, 12]\<rparr>)
       (draw 7) (draw 2) (draw 3) (draw 4)
     = Some (None, Some (errors_New ''Invalid password verify request'')) \<and>
   VerifyPassword Z13 [2, 4, 3, 3] None (draw 7) (draw 2) (draw 3) (draw 4)
     = Some (None, Some (errors_New ''Invalid password verify request''))"
proof -
  have kp: "unmarshalKeypair Z13 [2, 4, 3, 3] = Inr \<lparr>PublicKey = [4, 3], PrivateKey = [3]\<rparr>"
    by (simp add: Z13_fields)
  show ?thesis
    using kp
      VerifyPassword_rejects_bad_NS [of "Some \<lparr>req_NS = [], req_C0 = [4, 12]\<rparr>" Z13
        "[2, 4, 3, 3]" "draw 7" "draw 2" "draw 3" "draw 4"]
      VerifyPassword_rejects_bad_NS [of "Some \<lparr>req_NS = replicate 33 1, req_C0 = [4, 12]\<rparr>" Z13
        "[2, 4, 3, 3]" "draw 7" "draw 2" "draw 3" "draw 4"]
      VerifyPassword_rejects_bad_NS [of None Z13 "[2, 4, 3, 3]" "draw 7" "draw 2" "draw 3" "draw 4"]
    by simp
qed

text \<open>
  C9. Whenever EnrollAccount or CheckResponseAndDecrypt returns an error that is not
  nil, the key it returns with it is nil. This holds for every input and for every
  choice of the primitives.
\<close>

theorem no_key_with_error:
  "(\<forall>rec key e. EnrollAccount cv c password resp nc_read mBuf_read = Inr (rec, key, Some e)
       \<longrightarrow> key = None) \<and>
   (\<forall>key e. CheckResponseAndDecrypt cv c password rec' resp' = Inr (key, Some e)
       \<longrightarrow> key = None)"
  by (auto simp add: EnrollAccount_def CheckResponseAndDecrypt_def Let_def
      split: option.splits sum.splits if_splits prod.splits)

text \<open>The witness: an enrollment without a response, and a response that claims success
  with a first proof term that does not decode; both return an error and no key.\<close>

theorem no_key_with_error_witness:
  "EnrollAccount Z13
      \<lparr>clientPrivateKey = 5, clientPrivateKeyBytes = [5], serverPublicKey = 3,
       serverPublicKeyBytes = [4, 3]\<rparr>
      [112, 119] None (Inr (replicate 32 2)) (Inr (replicate 32 3))
     = Inr (None, None, Some (errors_New ''invalid proof'')) \<and>
   CheckResponseAndDecrypt Z13
      \<lparr>clientPrivateKey = 5, clientPrivateKeyBytes = [5], serverPublicKey = 3,
       serverPublicKeyBytes = [4, 3]\<rparr>
      [112, 119]
      (Some \<lparr>rec_NS = replicate 32 1, rec_NC = replicate 32 2, rec_T0 = [4, 6],
             rec_T1 = [4, 9]\<rparr>)
      (Some \<lparr>Res = True, resp_C1 = [4, 8],
             ProofSuccess = Some \<lparr>pos_Term1 = [4, 0], pos_Term2 = [4, 10],
                                   pos_Term3 = [4, 7], BlindX = [12]\<rparr>,
             ProofFail = None\<rparr>)
     = Inr (None, Some (errors_New ''result is ok but proof is invalid''))"
  using no_key_with_error [of Z13
      "\<lparr>clientPrivateKey = 5, clientPrivateKeyBytes = [5], serverPublicKey = 3,
        serverPublicKeyBytes = [4, 3]\<rparr>"
      "[112, 119]" None "Inr (replicate 32 2)" "Inr (replicate 32 3)"]
  by (simp add: EnrollAccount_def CheckResponseAndDecrypt_def EnrollmentRecord_parse_def
      validateProofOfSuccess_def ProofOfSuccess_parse_def Z13_fields)

text \<open>
  C10. The cached bytes of a client agree with its keys: the private key bytes decode
  (big-endian) to the private key and the public key bytes are the Marshal of the public
  key point. NewClient establishes this (given that PointUnmarshal accepts only the
  encoding of the point it returns), and Rotate keeps it, with a token that parses and
  with one that does not; after a Rotate that succeeds the private key bytes are the
  encoding without leading zeros.
\<close>

theorem client_bytes_invariant:
  "(codec_ok cv \<and> NewClient cv privateKey pub = Inr c \<longrightarrow> client_inv cv c) \<and>
   (0 < curve_N cv \<and> client_inv cv c' \<longrightarrow> client_inv cv (fst (Client_Rotate cv c' token))) \<and>
   (0 < curve_N cv \<and> snd (Client_Rotate cv c' token) = None \<longrightarrow>
      client_inv cv (fst (Client_Rotate cv c' token)) \<and>
      clientPrivateKeyBytes (fst (Client_Rotate cv c' token))
        = Bytes (clientPrivateKey (fst (Client_Rotate cv c' token))))"
proof -
  have a: "client_inv cv c" if "codec_ok cv" "NewClient cv privateKey pub = Inr c"
    using that
    by (auto simp add: NewClient_def client_inv_def codec_ok_def split: if_splits sum.splits)
  have nn: "\<bar>gf_Mul cv x y\<bar> = gf_Mul cv x y" if "0 < curve_N cv" for x y
    using that by (simp add: gf_Mul_def)
  have b: "client_inv cv (fst (Client_Rotate cv c' token))"
    if "0 < curve_N cv" "client_inv cv c'"
    using that nn
    by (auto simp add: Client_Rotate_def client_inv_def Let_def SetBytes_Bytes
        split: sum.splits prod.splits)
  have c: "client_inv cv (fst (Client_Rotate cv c' token)) \<and>
      clientPrivateKeyBytes (fst (Client_Rotate cv c' token))
        = Bytes (clientPrivateKey (fst (Client_Rotate cv c' token)))"
    if "0 < curve_N cv" "snd (Client_Rotate cv c' token) = None"
    using that nn
    by (auto simp add: Client_Rotate_def client_inv_def Let_def SetBytes_Bytes
        split: sum.splits prod.splits)
  from a b c show ?thesis by blast
qed

theorem client_bytes_invariant_witness:
  "codec_ok Z13 \<and>
   NewClient Z13 [0, 5] [4, 3]
     = Inr \<lparr>clientPrivateKey = 5, clientPrivateKeyBytes = [0, 5], serverPublicKey = 3,
            serverPublicKeyBytes = [4, 3]\<rparr> \<and>
   client_inv Z13 \<lparr>clientPrivateKey = 5, clientPrivateKeyBytes = [0, 5], serverPublicKey = 3,
            serverPublicKeyBytes = [4, 3]\<rparr> \<and>
   Client_Rotate Z13 \<lparr>clientPrivateKey = 5, clientPrivateKeyBytes = [0, 5], serverPublicKey = 3,
            serverPublicKeyBytes = [4, 3]\<rparr> (Some \<lparr>tok_A = [2], tok_B = [6]\<rparr>)
     = (\<lparr>clientPrivateKey = 10, clientPrivateKeyBytes = [10], serverPublicKey = 12,
            serverPublicKeyBytes = [4, 12]\<rparr>, None) \<and>
   client_inv Z13 \<lparr>clientPrivateKey = 10, clientPrivateKeyBytes = [10], serverPublicKey = 12,
            serverPublicKeyBytes = [4, 12]\<rparr>"
proof -
  let ?c = "\<lparr>clientPrivateKey = 5, clientPrivateKeyBytes = [0, 5], serverPublicKey = 3 :: 13,
            serverPublicKeyBytes = [4, 3]\<rparr>"
  have n: "NewClient Z13 [0, 5] [4, 3] = Inr ?c"
    by (simp add: NewClient_def Z13_fields SetBytes_def)
  have r: "Client_Rotate Z13 ?c (Some \<lparr>tok_A = [2], tok_B = [6]\<rparr>)
     = (\<lparr>clientPrivateKey = 10, clientPrivateKeyBytes = [10], serverPublicKey = 12,
            serverPublicKeyBytes = [4, 12]\<rparr>, None)"
    by (simp add: Client_Rotate_def UpdateToken_parse_def Z13_eval)
  show ?thesis
    using client_bytes_invariant [of Z13 "[0, 5]" "[4, 3]" ?c ?c "Some \<lparr>tok_A = [2], tok_B = [6]\<rparr>"]
      Z13_codec_ok n r
    by (simp add: Z13_fields Bytes_small)
qed

text \<open>
  C6. For a proof that decodes to (T1, T2, T3, blindX), validateProofOfSuccess returns
  true exactly when T1 + challenge\<cdot>C0 = blindX\<cdot>HS0, T2 + challenge\<cdot>C1 = blindX\<cdot>HS1 and
  T3 + challenge\<cdot>Y = blindX\<cdot>G, with HS0 and HS1 hashed from the nonce under the tags dhs0
  and dhs1 and the challenge hashed under the tag proofOk from the encodings of
  Y, G, C0, C1, T1, T2, T3. The function hashes the bytes it is given (the cached public
  key bytes, c0b, c1b and the proof's term bytes): they are the encodings of the points
  when the client's cached bytes are consistent and c0b, c1b encode C0, C1, as at both
  call sites.
\<close>

theorem validateProofOfSuccess_iff:
  fixes cv :: "'p::ab_group_add primitives"
  assumes "codec_ok cv"
    and "ProofOfSuccess_parse cv sp = Inr (term1, term2, term3, blindX)"
    and "c0b = Marshal cv c0" and "c1b = Marshal cv c1"
    and "client_inv cv c"
  shows "validateProofOfSuccess cv c sp nonce c0 c1 c0b c1b \<longleftrightarrow>
     (let hs0 = hashToPoint cv dhs0 [nonce];
          hs1 = hashToPoint cv dhs1 [nonce];
          challenge = hashZ cv proofOk
            [Marshal cv (serverPublicKey c), Marshal cv (curveG cv), Marshal cv c0,
             Marshal cv c1, Marshal cv term1, Marshal cv term2, Marshal cv term3]
      in term1 + ScalarMultInt cv c0 challenge = ScalarMultInt cv hs0 blindX \<and>
         term2 + ScalarMultInt cv c1 challenge = ScalarMultInt cv hs1 blindX \<and>
         term3 + ScalarMultInt cv (serverPublicKey c) challenge = ScalarBaseMultInt cv blindX)"
proof -
  from assms(2) obtain p where sp: "sp = Some p"
    and t: "PointUnmarshal cv (pos_Term1 p) = Inr term1"
      "PointUnmarshal cv (pos_Term2 p) = Inr term2"
      "PointUnmarshal cv (pos_Term3 p) = Inr term3"
    by (auto simp add: ProofOfSuccess_parse_def split: option.splits sum.splits)
  have m: "pos_Term1 p = Marshal cv term1" "pos_Term2 p = Marshal cv term2"
    "pos_Term3 p = Marshal cv term3"
    using codec_decoded(1) [OF assms(1)] t by simp_all
  have Yb: "serverPublicKeyBytes c = Marshal cv (serverPublicKey c)"
    using assms(5) by (simp add: client_inv_def)
  show ?thesis
    unfolding validateProofOfSuccess_def assms(2)
    by (simp add: Let_def sp m Yb assms(3,4))
qed

text \<open>The witness: the proof of an honest enrollment response is accepted, and the same
  proof with another blindX is not.\<close>

theorem validateProofOfSuccess_iff_witness:
  "codec_ok Z13 \<and>
   ProofOfSuccess_parse Z13
      (Some \<lparr>pos_Term1 = [4, 7], pos_Term2 = [4, 9], pos_Term3 = [4, 5], BlindX = [10]\<rparr>)
     = Inr (7, 9, 5, 10) \<and>
   client_inv Z13 \<lparr>clientPrivateKey = 5, clientPrivateKeyBytes = [5], serverPublicKey = 3,
                   serverPublicKeyBytes = [4, 3]\<rparr> \<and>
   validateProofOfSuccess Z13
      \<lparr>clientPrivateKey = 5, clientPrivateKeyBytes = [5], serverPublicKey = 3,
       serverPublicKeyBytes = [4, 3]\<rparr>
      (Some \<lparr>pos_Term1 = [4, 7], pos_Term2 = [4, 9], pos_Term3 = [4, 5], BlindX = [10]\<rparr>)
      (replicate 32 1) 12 8 [4, 12] [4, 8]"
proof -
  let ?c = "\<lparr>clientPrivateKey = 5, clientPrivateKeyBytes = [5], serverPublicKey = 3 :: 13,
             serverPublicKeyBytes = [4, 3]\<rparr>"
  let ?sp = "Some \<lparr>pos_Term1 = [4, 7], pos_Term2 = [4, 9], pos_Term3 = [4, 5], BlindX = [10]\<rparr>"
  have p: "ProofOfSuccess_parse Z13 ?sp = Inr (7, 9, 5, 10)"
    by (simp add: ProofOfSuccess_parse_def Z13_fields SetBytes_def)
  have i: "client_inv Z13 ?c"
    by (simp add: client_inv_def Z13_eval)
  have m: "[4, 12] = Marshal Z13 12" "[4, 8] = Marshal Z13 8"
    by (simp_all add: Z13_eval)
  show ?thesis
    using validateProofOfSuccess_iff [OF Z13_codec_ok p m i, of "replicate 32 1"] p i Z13_codec_ok
    by (simp add: Z13_eval)
qed

text \<open>
  C7. For a request with an NS of 1 to 32 bytes and a C0 that decodes to a point, on a
  server key pair that decodes and whose public key decodes, and with every call of
  randomZ returning: VerifyPassword returns a response and no error. If y\<cdot>HS0 equals the
  request's point, the response has Res = true, C1 = y\<cdot>HS1, the proof of success made by
  proveSuccess, and no proof of failure. Otherwise it has Res = false, the C1 and the
  proof of failure made by proveFailure, and no proof of success.
\<close>

theorem VerifyPassword_branches:
  fixes cv :: "'p::ab_group_add primitives"
  assumes "unmarshalKeypair cv skp = Inr kp"
    and "0 < length (req_NS rq)" and "length (req_NS rq) \<le> 32"
    and "PointUnmarshal cv (req_C0 rq) = Inr c0"
    and "PointUnmarshal cv (PublicKey kp) = Inr Y"
    and "randomZ cv rd_s = Some ks" and "randomZ cv rd_r = Some kr"
    and "randomZ cv rd_a = Some ka" and "randomZ cv rd_b = Some kb"
  shows "\<exists>resp.
      VerifyPassword cv skp (Some rq) rd_s rd_r rd_a rd_b = Some (Some resp, None) \<and>
      (if ScalarMult cv (hashToPoint cv dhs0 [req_NS rq]) (PrivateKey kp) = c0
       then Res resp \<and>
            resp_C1 resp
              = Marshal cv (ScalarMult cv (hashToPoint cv dhs1 [req_NS rq]) (PrivateKey kp)) \<and>
            (\<exists>sp. ProofSuccess resp = Some sp \<and>
               proveSuccess cv kp (hashToPoint cv dhs0 [req_NS rq])
                 (hashToPoint cv dhs1 [req_NS rq]) c0
                 (ScalarMult cv (hashToPoint cv dhs1 [req_NS rq]) (PrivateKey kp)) rd_s
               = Some sp) \<and>
            ProofFail resp = None
       else \<not> Res resp \<and> ProofSuccess resp = None \<and>
            (\<exists>c1 fp. ProofFail resp = Some fp \<and> resp_C1 resp = Marshal cv c1 \<and>
               proveFailure cv kp c0 (hashToPoint cv dhs0 [req_NS rq]) rd_r rd_a rd_b
               = Some (c1, Some fp, None)))"
proof (cases "ScalarMult cv (hashToPoint cv dhs0 [req_NS rq]) (PrivateKey kp) = c0")
  case True
  then show ?thesis
    using assms by (simp add: VerifyPassword_def proveSuccess_def Let_def)
next
  case False
  then show ?thesis
    using assms by (simp add: VerifyPassword_def proveFailure_def Let_def)
qed

text \<open>The witness: the request of the right password and the request of a wrong one, with
  the responses the server computes.\<close>

theorem VerifyPassword_branches_witness:
  "unmarshalKeypair Z13 [2, 4, 3, 3] = Inr \<lparr>PublicKey = [4, 3], PrivateKey = [3]\<rparr> \<and>
   PointUnmarshal Z13 [4, 12] = Inr 12 \<and> PointUnmarshal Z13 [4, 10] = Inr 10 \<and>
   PointUnmarshal Z13 [4, 3] = Inr 3 \<and>
   ScalarMult Z13 (hashToPoint Z13 dhs0 [replicate 32 1]) [3] = 12 \<and>
   VerifyPassword Z13 [2, 4, 3, 3] (Some \<lparr>req_NS = replicate 32 1, req_C0 = [4, 12]\<rparr>)
       (draw 7) (draw 2) (draw 3) (draw 4)
     = Some (Some \<lparr>Res = True, resp_C1 = [4, 8],
                   ProofSuccess = Some \<lparr>pos_Term1 = [4, 2], pos_Term2 = [4, 10],
                                         pos_Term3 = [4, 7], BlindX = [12]\<rparr>,
                   ProofFail = None\<rparr>, None) \<and>
   VerifyPassword Z13 [2, 4, 3, 3] (Some \<lparr>req_NS = replicate 32 1, req_C0 = [4, 10]\<rparr>)
       (draw 7) (draw 2) (draw 3) (draw 4)
     = Some (Some \<lparr>Res = False, resp_C1 = [4, 9], ProofSuccess = None,
                   ProofFail = Some \<lparr>pof_Term1 = [4, 4], pof_Term2 = [4, 3],
                                      pof_Term3 = [4, 9], pof_Term4 = [4, 4],
                                      BlindA = [8], BlindB = [2]\<rparr>\<rparr>, None)"
proof -
  have kp: "unmarshalKeypair Z13 [2, 4, 3, 3] = Inr \<lparr>PublicKey = [4, 3], PrivateKey = [3]\<rparr>"
    by (simp add: Z13_fields)
  have u: "PointUnmarshal Z13 [4, 12] = Inr 12" "PointUnmarshal Z13 [4, 10] = Inr 10"
    "PointUnmarshal Z13 [4, 3] = Inr 3"
    by (simp_all add: Z13_fields)
  have d: "randomZ Z13 (draw 7) = Some 7" "randomZ Z13 (draw 2) = Some 2"
    "randomZ Z13 (draw 3) = Some 3" "randomZ Z13 (draw 4) = Some 4"
    by (simp_all add: randomZ_draw)
  have s: "ScalarMult Z13 (hashToPoint Z13 dhs0 [replicate 32 1]) [3] = 12"
    by (simp add: Z13_eval)
  note w = VerifyPassword_branches [where cv = Z13 and skp = "[2, 4, 3, 3]"
      and kp = "\<lparr>PublicKey = [4, 3], PrivateKey = [3]\<rparr>"
      and rd_s = "draw 7" and rd_r = "draw 2" and rd_a = "draw 3" and rd_b = "draw 4" and Y = 3
      and ks = 7 and kr = 2 and ka = 3 and kb = 4]
  show ?thesis
    using w [where rq = "\<lparr>req_NS = replicate 32 1, req_C0 = [4, 12]\<rparr>" and ?c0.0 = 12]
      kp u d s Z13_VerifyPassword_right Z13_VerifyPassword_wrong
    by simp
qed

text \<open>
  C1. The claim: for every server key pair made by GenerateServerKeypair, every client
  private key that is not empty, and every password, enrollment followed by a
  verification with the same password gives Res = true, a proof that verifies, and the
  key of the enrollment. The code: a client private key that is not empty can still have
  the value 0 modulo the group order (the single byte 0x00), and then the key cannot be
  recovered. What holds: with a client private key that is not 0 modulo the group order,
  blinding scalars drawn in [1, n), and an enrollment record whose two points are not
  the point at infinity (the record decodes), the round trip gives Res = true, a proof
  that verifies, and the key of the enrollment.
\<close>

theorem enroll_then_verify_round_trip:
  fixes cv :: "'p::ab_group_add primitives"
  assumes "group_ok cv" and "codec_ok cv" and "hash_ok cv" and "keypair_codec_ok cv"
    and "GenerateServerKeypair cv rd_k = Some (Inr skp)"
    and "GetPublicKey cv skp = (Some pub, None)"
    and "NewClient cv xb pub = Inr c"
    and "SetBytes xb mod curve_N cv \<noteq> 0"
    and "0 < length ns" and "length ns \<le> 32" and "0 < length nc"
    and "randomZ cv rd_e = Some e" and "0 < e"
    and "randomZ cv rd_v = Some v" and "0 < v"
  shows "\<exists>resp rec key.
      GetEnrollment cv skp (Inr ns) rd_e = Some (Some resp, None) \<and>
      EnrollAccount cv c pw (Some resp) (Inr nc) (Inr mBuf) = Inr (Some rec, Some key, None) \<and>
      ((\<exists>t0 t1. EnrollmentRecord_parse cv (Some rec) = Inr (t0, t1)) \<longrightarrow>
         (\<exists>req vresp c0 c1.
            CreateVerifyPasswordRequest cv c pw (Some rec) = (Some req, None) \<and>
            VerifyPassword cv skp (Some req) rd_v rd_r rd_a rd_b = Some (Some vresp, None) \<and>
            Res vresp \<and> ProofFail vresp = None \<and>
            PointUnmarshal cv (req_C0 req) = Inr c0 \<and>
            PointUnmarshal cv (resp_C1 vresp) = Inr c1 \<and>
            validateProofOfSuccess cv c (ProofSuccess vresp) (rec_NS rec) c0 c1
              (req_C0 req) (resp_C1 vresp) \<and>
            CheckResponseAndDecrypt cv c pw (Some rec) (Some vresp) = Inr (Some key, None)))"
proof -
  obtain kp resp rec m where kp: "unmarshalKeypair cv skp = Inr kp"
    and ge: "GetEnrollment cv skp (Inr ns) rd_e = Some (Some resp, None)"
    and ea: "EnrollAccount cv c pw (Some resp) (Inr nc) (Inr mBuf)
        = Inr (Some rec, Some (hkdf_Secret cv (Marshal cv m)), None)"
    and en: "(\<exists>t0 t1. EnrollmentRecord_parse cv (Some rec) = Inr (t0, t1)) \<longrightarrow>
        enrolled cv kp c pw rec m"
    using enroll_flow [where rd_e = rd_e, OF assms(1-13)] by blast
  have "\<exists>req vresp c0 c1.
      CreateVerifyPasswordRequest cv c pw (Some rec) = (Some req, None) \<and>
      VerifyPassword cv skp (Some req) rd_v rd_r rd_a rd_b = Some (Some vresp, None) \<and>
      Res vresp \<and> ProofFail vresp = None \<and>
      PointUnmarshal cv (req_C0 req) = Inr c0 \<and>
      PointUnmarshal cv (resp_C1 vresp) = Inr c1 \<and>
      validateProofOfSuccess cv c (ProofSuccess vresp) (rec_NS rec) c0 c1
        (req_C0 req) (resp_C1 vresp) \<and>
      CheckResponseAndDecrypt cv c pw (Some rec) (Some vresp)
        = Inr (Some (hkdf_Secret cv (Marshal cv m)), None)"
    if "\<exists>t0 t1. EnrollmentRecord_parse cv (Some rec) = Inr (t0, t1)"
    using verify_flow [where rd_v = rd_v, OF assms(1-3) kp _ assms(14,15)] en that by blast
  with ge ea show ?thesis by blast
qed

text \<open>The witness: server key 3, client key 5, the password "pw", on the small instance.\<close>

theorem enroll_then_verify_round_trip_witness:
  "GenerateServerKeypair Z13 (draw 3) = Some (Inr [2, 4, 3, 3]) \<and>
   GetPublicKey Z13 [2, 4, 3, 3] = (Some [4, 3], None) \<and>
   NewClient Z13 [5] [4, 3]
     = Inr \<lparr>clientPrivateKey = 5, clientPrivateKeyBytes = [5], serverPublicKey = 3,
            serverPublicKeyBytes = [4, 3]\<rparr> \<and>
   GetEnrollment Z13 [2, 4, 3, 3] (Inr (replicate 32 1)) (draw 5)
     = Some (Some \<lparr>enr_NS = replicate 32 1, enr_C0 = [4, 12], enr_C1 = [4, 8],
                   enr_Proof = Some \<lparr>pos_Term1 = [4, 7], pos_Term2 = [4, 9],
                                      pos_Term3 = [4, 5], BlindX = [10]\<rparr>\<rparr>, None) \<and>
   EnrollAccount Z13
      \<lparr>clientPrivateKey = 5, clientPrivateKeyBytes = [5], serverPublicKey = 3,
       serverPublicKeyBytes = [4, 3]\<rparr>
      [112, 119]
      (Some \<lparr>enr_NS = replicate 32 1, enr_C0 = [4, 12], enr_C1 = [4, 8],
             enr_Proof = Some \<lparr>pos_Term1 = [4, 7], pos_Term2 = [4, 9],
                                pos_Term3 = [4, 5], BlindX = [10]\<rparr>\<rparr>)
      (Inr (replicate 32 2)) (Inr (replicate 32 3))
     = Inr (Some \<lparr>rec_NS = replicate 32 1, rec_NC = replicate 32 2, rec_T0 = [4, 6],
                   rec_T1 = [4, 9]\<rparr>, Some [4, 1], None) \<and>
   EnrollmentRecord_parse Z13
      (Some \<lparr>rec_NS = replicate 32 1, rec_NC = replicate 32 2, rec_T0 = [4, 6],
             rec_T1 = [4, 9]\<rparr>) = Inr (6, 9) \<and>
   (\<exists>vresp.
      VerifyPassword Z13 [2, 4, 3, 3] (Some \<lparr>req_NS = replicate 32 1, req_C0 = [4, 12]\<rparr>)
        (draw 7) (draw 2) (draw 3) (draw 4) = Some (Some vresp, None) \<and>
      Res vresp \<and>
      CheckResponseAndDecrypt Z13
        \<lparr>clientPrivateKey = 5, clientPrivateKeyBytes = [5], serverPublicKey = 3,
         serverPublicKeyBytes = [4, 3]\<rparr>
        [112, 119]
        (Some \<lparr>rec_NS = replicate 32 1, rec_NC = replicate 32 2, rec_T0 = [4, 6],
               rec_T1 = [4, 9]\<rparr>)
        (Some vresp) = Inr (Some [4, 1], None))"
proof -
  have x: "SetBytes [5] mod curve_N Z13 \<noteq> 0"
    by (simp add: SetBytes_def Z13_fields)
  have p: "EnrollmentRecord_parse Z13
      (Some \<lparr>rec_NS = replicate 32 1, rec_NC = replicate 32 2, rec_T0 = [4, 6],
             rec_T1 = [4, 9]\<rparr>) = Inr (6, 9)"
    by (simp add: EnrollmentRecord_parse_def Z13_fields)
  show ?thesis
    using enroll_then_verify_round_trip [where cv = Z13 and rd_e = "draw 5" and rd_v = "draw 7"
        and rd_r = "draw 2" and rd_a = "draw 3" and rd_b = "draw 4"
        and ns = "replicate 32 1" and nc = "replicate 32 2" and mBuf = "replicate 32 3"
        and pw = "[112, 119]",
        OF Z13_group_ok Z13_codec_ok Z13_hash_ok Z13_keypair_codec_ok
        Z13_GenerateServerKeypair Z13_GetPublicKey Z13_NewClient x _ _ _
        Z13_randomZ(4) _ Z13_randomZ(6)]
      Z13_GenerateServerKeypair Z13_GetPublicKey Z13_NewClient Z13_GetEnrollment
      Z13_EnrollAccount Z13_CreateVerifyPasswordRequest p
    by (simp, blast)
qed

text \<open>The counterexample: the same run with the client private key 0x00, which NewClient
  accepts. Enrollment returns the key [4, 1]; the server answers the request of the same
  password with Res = true; CheckResponseAndDecrypt has no inverse of the private key to
  multiply by and returns no key.\<close>

theorem enroll_then_verify_round_trip_counterexample:
  "GenerateServerKeypair Z13 (draw 3) = Some (Inr [2, 4, 3, 3]) \<and>
   GetPublicKey Z13 [2, 4, 3, 3] = (Some [4, 3], None) \<and>
   NewClient Z13 [0] [4, 3]
     = Inr \<lparr>clientPrivateKey = 0, clientPrivateKeyBytes = [0], serverPublicKey = 3,
            serverPublicKeyBytes = [4, 3]\<rparr> \<and>
   GetEnrollment Z13 [2, 4, 3, 3] (Inr (replicate 32 1)) (draw 5)
     = Some (Some \<lparr>enr_NS = replicate 32 1, enr_C0 = [4, 12], enr_C1 = [4, 8],
                   enr_Proof = Some \<lparr>pos_Term1 = [4, 7], pos_Term2 = [4, 9],
                                      pos_Term3 = [4, 5], BlindX = [10]\<rparr>\<rparr>, None) \<and>
   EnrollAccount Z13
      \<lparr>clientPrivateKey = 0, clientPrivateKeyBytes = [0], serverPublicKey = 3,
       serverPublicKeyBytes = [4, 3]\<rparr>
      [112, 119]
      (Some \<lparr>enr_NS = replicate 32 1, enr_C0 = [4, 12], enr_C1 = [4, 8],
             enr_Proof = Some \<lparr>pos_Term1 = [4, 7], pos_Term2 = [4, 9],
                                pos_Term3 = [4, 5], BlindX = [10]\<rparr>\<rparr>)
      (Inr (replicate 32 2)) (Inr (replicate 32 3))
     = Inr (Some \<lparr>rec_NS = replicate 32 1, rec_NC = replicate 32 2, rec_T0 = [4, 12],
                   rec_T1 = [4, 8]\<rparr>, Some [4, 1], None) \<and>
   CreateVerifyPasswordRequest Z13
      \<lparr>clientPrivateKey = 0, clientPrivateKeyBytes = [0], serverPublicKey = 3,
       serverPublicKeyBytes = [4, 3]\<rparr>
      [112, 119]
      (Some \<lparr>rec_NS = replicate 32 1, rec_NC = replicate 32 2, rec_T0 = [4, 12],
             rec_T1 = [4, 8]\<rparr>)
     = (Some \<lparr>req_NS = replicate 32 1, req_C0 = [4, 12]\<rparr>, None) \<and>
   VerifyPassword Z13 [2, 4, 3, 3] (Some \<lparr>req_NS = replicate 32 1, req_C0 = [4, 12]\<rparr>)
       (draw 7) (draw 2) (draw 3) (draw 4)
     = Some (Some \<lparr>Res = True, resp_C1 = [4, 8],
                   ProofSuccess = Some \<lparr>pos_Term1 = [4, 2], pos_Term2 = [4, 10],
                                         pos_Term3 = [4, 7], BlindX = [12]\<rparr>,
                   ProofFail = None\<rparr>, None) \<and>
   CheckResponseAndDecrypt Z13
      \<lparr>clientPrivateKey = 0, clientPrivateKeyBytes = [0], serverPublicKey = 3,
       serverPublicKeyBytes = [4, 3]\<rparr>
      [112, 119]
      (Some \<lparr>rec_NS = replicate 32 1, rec_NC = replicate 32 2, rec_T0 = [4, 12],
             rec_T1 = [4, 8]\<rparr>)
      (Some \<lparr>Res = True, resp_C1 = [4, 8],
             ProofSuccess = Some \<lparr>pos_Term1 = [4, 2], pos_Term2 = [4, 10],
                                   pos_Term3 = [4, 7], BlindX = [12]\<rparr>,
             ProofFail = None\<rparr>)
     = Inl panic_no_inverse"
proof -
  let ?c = "\<lparr>clientPrivateKey = 0, clientPrivateKeyBytes = [0], serverPublicKey = 3 :: 13,
             serverPublicKeyBytes = [4, 3]\<rparr>"
  have n: "NewClient Z13 [0] [4, 3] = Inr ?c"
    by (simp add: NewClient_def Z13_eval)
  have e: "EnrollAccount Z13 ?c [112, 119]
      (Some \<lparr>enr_NS = replicate 32 1, enr_C0 = [4, 12], enr_C1 = [4, 8],
             enr_Proof = Some \<lparr>pos_Term1 = [4, 7], pos_Term2 = [4, 9],
                                pos_Term3 = [4, 5], BlindX = [10]\<rparr>\<rparr>)
      (Inr (replicate 32 2)) (Inr (replicate 32 3))
     = Inr (Some \<lparr>rec_NS = replicate 32 1, rec_NC = replicate 32 2, rec_T0 = [4, 12],
                   rec_T1 = [4, 8]\<rparr>, Some [4, 1], None)"
    by (simp add: EnrollAccount_def validateProofOfSuccess_def ProofOfSuccess_parse_def Z13_eval)
  have r: "CreateVerifyPasswordRequest Z13 ?c [112, 119]
      (Some \<lparr>rec_NS = replicate 32 1, rec_NC = replicate 32 2, rec_T0 = [4, 12],
             rec_T1 = [4, 8]\<rparr>)
     = (Some \<lparr>req_NS = replicate 32 1, req_C0 = [4, 12]\<rparr>, None)"
    by (simp add: CreateVerifyPasswordRequest_def Z13_eval)
  have d: "CheckResponseAndDecrypt Z13 ?c [112, 119]
      (Some \<lparr>rec_NS = replicate 32 1, rec_NC = replicate 32 2, rec_T0 = [4, 12],
             rec_T1 = [4, 8]\<rparr>)
      (Some \<lparr>Res = True, resp_C1 = [4, 8],
             ProofSuccess = Some \<lparr>pos_Term1 = [4, 2], pos_Term2 = [4, 10],
                                   pos_Term3 = [4, 7], BlindX = [12]\<rparr>,
             ProofFail = None\<rparr>)
     = Inl panic_no_inverse"
    by (simp add: CheckResponseAndDecrypt_def EnrollmentRecord_parse_def
      validateProofOfSuccess_def ProofOfSuccess_parse_def Z13_gf_Inv_0 Z13_eval)
  show ?thesis
    using Z13_GenerateServerKeypair Z13_GetPublicKey n Z13_GetEnrollment e r
      Z13_VerifyPassword_right d
    by simp
qed

text \<open>
  C8, as the code has it. The state after an enrollment with the password P
  (\<open>enrolled\<close>): the server key pair decodes, its private key y is not 0 modulo n and its
  public key is the encoding of Y = y\<cdot>G, which the client holds as a point and as
  bytes; the client private key x is not negative and not 0 modulo n; the record has an NS of 1 to 32 bytes, an NC that is not empty, and
  the encodings of T0 = y\<cdot>HS0 + x\<cdot>HC0 and T1 = y\<cdot>HS1 + x\<cdot>HC1 + x\<cdot>M, neither of them the point
  at infinity. For a request made from this record with another password P', whose point
  C0 decodes (is not the point at infinity) and differs from y\<cdot>HS0, and a run of the
  server in which the three calls of randomZ return scalars r, blindA, blindB that are not
  0: the response has Res = false and a proof of failure whose decoded terms satisfy both
  equations T1 + T2 + challenge\<cdot>C1 = blindA\<cdot>C0 + blindB\<cdot>HS0 and
  T3 + T4 = blindA\<cdot>Y + blindB\<cdot>G, so that validateProofOfFail returns nil and
  CheckResponseAndDecrypt no key and no error. The claim as stated also covers the runs in
  which one of the three scalars is 0, where it fails.
\<close>

theorem wrong_password_proof_of_fail_accepted:
  fixes cv :: "'p::ab_group_add primitives"
  assumes "group_ok cv" and "codec_ok cv" and "hash_ok cv"
    and "unmarshalKeypair cv skp = Inr kp"
    and "enrolled cv kp c pw rec m"
    and "CreateVerifyPasswordRequest cv c pw' (Some rec) = (Some req, None)"
    and "PointUnmarshal cv (req_C0 req) = Inr c0"
    and "ScalarMult cv (hashToPoint cv dhs0 [req_NS req]) (PrivateKey kp) \<noteq> c0"
    and "randomZ cv rd_r = Some kr" and "randomZ cv rd_a = Some ka"
    and "randomZ cv rd_b = Some kb"
    and "0 < kr" and "0 < ka" and "0 < kb"
  shows "\<exists>vresp c1 fp term1 term2 term3 term4.
      VerifyPassword cv skp (Some req) rd_s rd_r rd_a rd_b = Some (Some vresp, None) \<and>
      Res vresp = False \<and> ProofSuccess vresp = None \<and> ProofFail vresp = Some fp \<and>
      PointUnmarshal cv (resp_C1 vresp) = Inr c1 \<and>
      PointUnmarshal cv (pof_Term1 fp) = Inr term1 \<and>
      PointUnmarshal cv (pof_Term2 fp) = Inr term2 \<and>
      PointUnmarshal cv (pof_Term3 fp) = Inr term3 \<and>
      PointUnmarshal cv (pof_Term4 fp) = Inr term4 \<and>
      (let hs0 = hashToPoint cv dhs0 [rec_NS rec];
           challenge = hashZ cv proofError
             [serverPublicKeyBytes c, Marshal cv (curveG cv), Marshal cv c0, resp_C1 vresp,
              pof_Term1 fp, pof_Term2 fp, pof_Term3 fp, pof_Term4 fp];
           blindA = SetBytes (BlindA fp);
           blindB = SetBytes (BlindB fp)
       in term1 + term2 + ScalarMultInt cv c1 challenge
            = ScalarMultInt cv c0 blindA + ScalarMultInt cv hs0 blindB \<and>
          term3 + term4
            = ScalarMultInt cv (serverPublicKey c) blindA + ScalarBaseMultInt cv blindB) \<and>
      validateProofOfFail cv c vresp c0 c1 (hashToPoint cv dhs0 [rec_NS rec])
        (hashToPoint cv dhc0 [rec_NC rec, pw']) (hashToPoint cv dhc1 [rec_NC rec, pw']) = None \<and>
      CheckResponseAndDecrypt cv c pw' (Some rec) (Some vresp) = Inr (None, None)"
proof -
  note ok = assms(1-3)
  let ?y = "SetBytes (PrivateKey kp)" and ?x = "clientPrivateKey c"
  let ?hs0 = "hashToPoint cv dhs0 [rec_NS rec]" and ?hs1 = "hashToPoint cv dhs1 [rec_NS rec]"
  let ?hc0 = "hashToPoint cv dhc0 [rec_NC rec, pw]" and ?hc1 = "hashToPoint cv dhc1 [rec_NC rec, pw]"
  let ?hc0' = "hashToPoint cv dhc0 [rec_NC rec, pw']"
  let ?hc1' = "hashToPoint cv dhc1 [rec_NC rec, pw']"
  let ?t0 = "zsmul ?y ?hs0 + zsmul ?x ?hc0"
  let ?t1 = "zsmul ?y ?hs1 + zsmul ?x ?hc1 + zsmul ?x m"
  from assms(5) have y: "?y mod curve_N cv \<noteq> 0"
    and Y: "serverPublicKey c = zsmul ?y (curveG cv)"
    and Yb: "serverPublicKeyBytes c = PublicKey kp"
    and pk: "PublicKey kp = Marshal cv (zsmul ?y (curveG cv))"
    and len: "0 < length (rec_NS rec)" "length (rec_NS rec) \<le> 32" "0 < length (rec_NC rec)"
    and nz: "?t0 \<noteq> 0" "?t1 \<noteq> 0"
    and T: "rec_T0 rec = Marshal cv ?t0" "rec_T1 rec = Marshal cv ?t1"
    by (simp_all add: enrolled_def Let_def)
  let ?c0 = "?t0 + ScalarMultInt cv ?hc0' (gf_Neg cv ?x)"
  have T0len: "length (rec_T0 rec) \<noteq> 0" using ok(2) T by (simp add: codec_ok_def)
  have req: "req = \<lparr>req_NS = rec_NS rec, req_C0 = Marshal cv ?c0\<rparr>"
    using assms(6) len T0len nz
    by (simp add: CreateVerifyPasswordRequest_def Let_def T codec_decode [OF ok(2)])
  have c0: "c0 = ?c0" and c0nz: "?c0 \<noteq> 0"
    using codec_same [OF ok(2), of ?c0 c0] assms(7) by (simp_all add: req)
  have neq: "c0 \<noteq> zsmul ?y ?hs0"
    using assms(8) by (simp add: req ScalarMult_zsmul [OF ok(1)])
  have hs0: "?hs0 \<noteq> 0" using ok(3) by (rule hash_nonzero)
  have c0nz': "c0 \<noteq> 0" using c0 c0nz by simp
  obtain c1 fp where pf: "proveFailure cv kp c0 ?hs0 rd_r rd_a rd_b = Some (c1, Some fp, None)"
    and c1nz: "c1 \<noteq> 0"
    and valid: "validateProofOfFail cv c
        \<lparr>Res = False, resp_C1 = Marshal cv c1, ProofSuccess = None, ProofFail = Some fp\<rparr>
        c0 c1 ?hs0 ?hc0' ?hc1' = None"
    using proveFailure_verifies [where rd_r = rd_r and rd_a = rd_a and rd_b = rd_b
        and ?hc0.0 = ?hc0' and ?hc1.0 = ?hc1', OF ok y pk Y Yb c0nz' neq hs0 assms(9-14)]
    by blast
  let ?vresp = "\<lparr>Res = False, resp_C1 = Marshal cv c1, ProofSuccess = None,
     ProofFail = Some fp\<rparr>"
  have vp: "VerifyPassword cv skp (Some req) rd_s rd_r rd_a rd_b = Some (Some ?vresp, None)"
    using len assms(7,8) pf
    by (simp add: VerifyPassword_def assms(4) Let_def req)
  have parse: "EnrollmentRecord_parse cv (Some rec) = Inr (?t0, ?t1)"
    using nz by (simp add: EnrollmentRecord_parse_def T codec_decode [OF ok(2)])
  have chk: "CheckResponseAndDecrypt cv c pw' (Some rec) (Some ?vresp) = Inr (None, None)"
    using c1nz valid
    by (simp add: CheckResponseAndDecrypt_def parse codec_decode [OF ok(2)] Let_def c0)
  have dec: "PointUnmarshal cv (resp_C1 ?vresp) = Inr c1"
    using c1nz by (simp add: codec_decode [OF ok(2)])
  from valid obtain term1 term2 term3 term4 where
    t: "PointUnmarshal cv (pof_Term1 fp) = Inr term1"
      "PointUnmarshal cv (pof_Term2 fp) = Inr term2"
      "PointUnmarshal cv (pof_Term3 fp) = Inr term3"
      "PointUnmarshal cv (pof_Term4 fp) = Inr term4"
    and eqs: "term1 + term2 + ScalarMultInt cv c1
          (hashZ cv proofError
            [serverPublicKeyBytes c, Marshal cv (curveG cv), Marshal cv c0, Marshal cv c1,
             pof_Term1 fp, pof_Term2 fp, pof_Term3 fp, pof_Term4 fp])
        = ScalarMultInt cv c0 (SetBytes (BlindA fp)) + ScalarMultInt cv ?hs0 (SetBytes (BlindB fp))"
      "term3 + term4
        = ScalarMultInt cv (serverPublicKey c) (SetBytes (BlindA fp))
          + ScalarBaseMultInt cv (SetBytes (BlindB fp))"
    unfolding validateProofOfFail_None_iff Let_def by auto
  show ?thesis
    apply (rule exI [of _ ?vresp], rule exI [of _ c1], rule exI [of _ fp])
    apply (rule exI [of _ term1], rule exI [of _ term2])
    apply (rule exI [of _ term3], rule exI [of _ term4])
    using vp valid chk dec t eqs by (simp add: Let_def)
qed

text \<open>The witness: the enrollment of "pw" and an attempt with "pw2" on the small instance.\<close>

theorem wrong_password_proof_of_fail_accepted_witness:
  "unmarshalKeypair Z13 [2, 4, 3, 3] = Inr \<lparr>PublicKey = [4, 3], PrivateKey = [3]\<rparr> \<and>
   enrolled Z13 \<lparr>PublicKey = [4, 3], PrivateKey = [3]\<rparr>
      \<lparr>clientPrivateKey = 5, clientPrivateKeyBytes = [5], serverPublicKey = 3,
       serverPublicKeyBytes = [4, 3]\<rparr>
      [112, 119]
      \<lparr>rec_NS = replicate 32 1, rec_NC = replicate 32 2, rec_T0 = [4, 6], rec_T1 = [4, 9]\<rparr>
      1 \<and>
   CreateVerifyPasswordRequest Z13
      \<lparr>clientPrivateKey = 5, clientPrivateKeyBytes = [5], serverPublicKey = 3,
       serverPublicKeyBytes = [4, 3]\<rparr>
      [112, 119, 50]
      (Some \<lparr>rec_NS = replicate 32 1, rec_NC = replicate 32 2, rec_T0 = [4, 6],
             rec_T1 = [4, 9]\<rparr>)
     = (Some \<lparr>req_NS = replicate 32 1, req_C0 = [4, 10]\<rparr>, None) \<and>
   PointUnmarshal Z13 [4, 10] = Inr 10 \<and>
   ScalarMult Z13 (hashToPoint Z13 dhs0 [replicate 32 1]) [3] = 12 \<and>
   VerifyPassword Z13 [2, 4, 3, 3] (Some \<lparr>req_NS = replicate 32 1, req_C0 = [4, 10]\<rparr>)
       (draw 7) (draw 2) (draw 3) (draw 4)
     = Some (Some \<lparr>Res = False, resp_C1 = [4, 9], ProofSuccess = None,
                   ProofFail = Some \<lparr>pof_Term1 = [4, 4], pof_Term2 = [4, 3],
                                      pof_Term3 = [4, 9], pof_Term4 = [4, 4],
                                      BlindA = [8], BlindB = [2]\<rparr>\<rparr>, None) \<and>
   validateProofOfFail Z13
      \<lparr>clientPrivateKey = 5, clientPrivateKeyBytes = [5], serverPublicKey = 3,
       serverPublicKeyBytes = [4, 3]\<rparr>
      \<lparr>Res = False, resp_C1 = [4, 9], ProofSuccess = None,
       ProofFail = Some \<lparr>pof_Term1 = [4, 4], pof_Term2 = [4, 3], pof_Term3 = [4, 9],
                          pof_Term4 = [4, 4], BlindA = [8], BlindB = [2]\<rparr>\<rparr>
      10 9 (hashToPoint Z13 dhs0 [replicate 32 1])
      (hashToPoint Z13 dhc0 [replicate 32 2, [112, 119, 50]])
      (hashToPoint Z13 dhc1 [replicate 32 2, [112, 119, 50]]) = None"
proof -
  have kp: "unmarshalKeypair Z13 [2, 4, 3, 3] = Inr \<lparr>PublicKey = [4, 3], PrivateKey = [3]\<rparr>"
    by (simp add: Z13_fields)
  have u: "PointUnmarshal Z13 (req_C0 \<lparr>req_NS = replicate 32 1, req_C0 = [4, 10]\<rparr>) = Inr 10"
    by (simp add: Z13_fields)
  have s: "ScalarMult Z13 (hashToPoint Z13 dhs0 [replicate 32 1]) [3] = 12"
    by (simp add: Z13_eval)
  have n: "ScalarMult Z13
      (hashToPoint Z13 dhs0 [req_NS \<lparr>req_NS = replicate 32 1, req_C0 = [4, 10]\<rparr>])
      (PrivateKey \<lparr>PublicKey = [4, 3], PrivateKey = [3]\<rparr>) \<noteq> 10"
    by (simp add: Z13_eval)
  show ?thesis
    using wrong_password_proof_of_fail_accepted [where rd_s = "draw 7" and rd_r = "draw 2"
        and rd_a = "draw 3" and rd_b = "draw 4",
        OF Z13_group_ok Z13_codec_ok Z13_hash_ok kp Z13_enrolled
        Z13_CreateVerifyPasswordRequest_wrong u n Z13_randomZ(1) Z13_randomZ(2) Z13_randomZ(3)]
      kp Z13_enrolled Z13_CreateVerifyPasswordRequest_wrong u s Z13_VerifyPassword_wrong
      Z13_validateProofOfFail
    by simp
qed

text \<open>The counterexample to C8 as stated: the same enrollment and attempt with "pw2",
  on a run of the server in which the draw of blindA is 0. The request point 10 differs
  from y\<cdot>HS0 = 12 and the response has Res = false, but the terms blindA\<cdot>C0 and blindA\<cdot>Y of
  the proof of failure are the point at infinity, whose encoding does not decode:
  validateProofOfFail refuses the proof with "invalid public key".\<close>

theorem wrong_password_proof_of_fail_accepted_counterexample:
  "GetEnrollment Z13 [2, 4, 3, 3] (Inr (replicate 32 1)) (draw 5)
     = Some (Some \<lparr>enr_NS = replicate 32 1, enr_C0 = [4, 12], enr_C1 = [4, 8],
             enr_Proof = Some \<lparr>pos_Term1 = [4, 7], pos_Term2 = [4, 9],
                                pos_Term3 = [4, 5], BlindX = [10]\<rparr>\<rparr>, None) \<and>
   EnrollAccount Z13
      \<lparr>clientPrivateKey = 5, clientPrivateKeyBytes = [5], serverPublicKey = 3,
       serverPublicKeyBytes = [4, 3]\<rparr>
      [112, 119]
      (Some \<lparr>enr_NS = replicate 32 1, enr_C0 = [4, 12], enr_C1 = [4, 8],
             enr_Proof = Some \<lparr>pos_Term1 = [4, 7], pos_Term2 = [4, 9],
                                pos_Term3 = [4, 5], BlindX = [10]\<rparr>\<rparr>)
      (Inr (replicate 32 2)) (Inr (replicate 32 3))
     = Inr (Some \<lparr>rec_NS = replicate 32 1, rec_NC = replicate 32 2, rec_T0 = [4, 6],
             rec_T1 = [4, 9]\<rparr>, Some [4, 1], None) \<and>
   CreateVerifyPasswordRequest Z13
      \<lparr>clientPrivateKey = 5, clientPrivateKeyBytes = [5], serverPublicKey = 3,
       serverPublicKeyBytes = [4, 3]\<rparr>
      [112, 119, 50]
      (Some \<lparr>rec_NS = replicate 32 1, rec_NC = replicate 32 2, rec_T0 = [4, 6],
             rec_T1 = [4, 9]\<rparr>)
     = (Some \<lparr>req_NS = replicate 32 1, req_C0 = [4, 10]\<rparr>, None) \<and>
   PointUnmarshal Z13 [4, 10] = Inr 10 \<and>
   ScalarMult Z13 (hashToPoint Z13 dhs0 [replicate 32 1]) [3] = 12 \<and>
   randomZ Z13 (draw 0) = Some 0 \<and>
   VerifyPassword Z13 [2, 4, 3, 3] (Some \<lparr>req_NS = replicate 32 1, req_C0 = [4, 10]\<rparr>)
       (draw 7) (draw 2) (draw 0) (draw 4)
     = Some (Some \<lparr>Res = False, resp_C1 = [4, 9], ProofSuccess = None,
       ProofFail = Some \<lparr>pof_Term1 = [4, 0], pof_Term2 = [4, 3], pof_Term3 = [4, 0],
                          pof_Term4 = [4, 4], BlindA = [5], BlindB = [2]\<rparr>\<rparr>, None) \<and>
   validateProofOfFail Z13
      \<lparr>clientPrivateKey = 5, clientPrivateKeyBytes = [5], serverPublicKey = 3,
       serverPublicKeyBytes = [4, 3]\<rparr>
      \<lparr>Res = False, resp_C1 = [4, 9], ProofSuccess = None,
       ProofFail = Some \<lparr>pof_Term1 = [4, 0], pof_Term2 = [4, 3], pof_Term3 = [4, 0],
                          pof_Term4 = [4, 4], BlindA = [5], BlindB = [2]\<rparr>\<rparr>
      10 9 (hashToPoint Z13 dhs0 [replicate 32 1])
      (hashToPoint Z13 dhc0 [replicate 32 2, [112, 119, 50]])
      (hashToPoint Z13 dhc1 [replicate 32 2, [112, 119, 50]])
     = Some (errors_New ''invalid public key'') \<and>
   CheckResponseAndDecrypt Z13
      \<lparr>clientPrivateKey = 5, clientPrivateKeyBytes = [5], serverPublicKey = 3,
       serverPublicKeyBytes = [4, 3]\<rparr>
      [112, 119, 50]
      (Some \<lparr>rec_NS = replicate 32 1, rec_NC = replicate 32 2, rec_T0 = [4, 6],
             rec_T1 = [4, 9]\<rparr>)
      (Some \<lparr>Res = False, resp_C1 = [4, 9], ProofSuccess = None,
       ProofFail = Some \<lparr>pof_Term1 = [4, 0], pof_Term2 = [4, 3], pof_Term3 = [4, 0],
                          pof_Term4 = [4, 4], BlindA = [5], BlindB = [2]\<rparr>\<rparr>)
     = Inr (None, Some (errors_New ''invalid public key''))"
proof -
  have u: "PointUnmarshal Z13 [4, 10] = Inr 10"
    by (simp add: Z13_fields)
  have s: "ScalarMult Z13 (hashToPoint Z13 dhs0 [replicate 32 1]) [3] = 12"
    by (simp add: Z13_eval)
  show ?thesis
    using Z13_GetEnrollment Z13_EnrollAccount Z13_CreateVerifyPasswordRequest_wrong u s
      Z13_randomZ(7) Z13_VerifyPassword_blind_zero Z13_validateProofOfFail_blind_zero
      Z13_CheckResponseAndDecrypt_blind_zero
    by simp
qed

text \<open>
  C2, as the code has it. For every response with Res = false, on a record and a C1 that
  decode, CheckResponseAndDecrypt returns no key and, as its error, the result of
  validateProofOfFail on C0 = T0 - x\<cdot>HC0, C1 and HS0. That result is
  nil, no error at all, exactly when the proof of failure decodes and satisfies both
  verifier equations under the client's cached server public key;
  "invalid public key" exactly when the proof of failure does not decode; and for a proof
  that decodes, "proof verification failed" exactly when the first equation
  T1 + T2 + challenge\<cdot>C1 = blindA\<cdot>C0 + blindB\<cdot>HS0 fails, and "verification failed" exactly
  when the first equation holds and the second, T3 + T4 = blindA\<cdot>Y + blindB\<cdot>G, fails.
\<close>

theorem CheckResponseAndDecrypt_Res_false:
  fixes cv :: "'p::ab_group_add primitives"
  assumes "EnrollmentRecord_parse cv (Some r) = Inr (t0, t1)"
    and "PointUnmarshal cv (resp_C1 rs) = Inr c1"
    and "Res rs = False"
  shows "(let hc0 = hashToPoint cv dhc0 [rec_NC r, password];
              hc1 = hashToPoint cv dhc1 [rec_NC r, password];
              hs0 = hashToPoint cv dhs0 [rec_NS r];
              c0 = t0 + ScalarMultInt cv hc0 (gf_Neg cv (clientPrivateKey c));
              err = validateProofOfFail cv c rs c0 c1 hs0 hc0 hc1
          in CheckResponseAndDecrypt cv c password (Some r) (Some rs) = Inr (None, err) \<and>
             (err = None \<longleftrightarrow>
                (\<exists>fp term1 term2 term3 term4.
                   ProofFail rs = Some fp \<and>
                   PointUnmarshal cv (pof_Term1 fp) = Inr term1 \<and>
                   PointUnmarshal cv (pof_Term2 fp) = Inr term2 \<and>
                   PointUnmarshal cv (pof_Term3 fp) = Inr term3 \<and>
                   PointUnmarshal cv (pof_Term4 fp) = Inr term4 \<and>
                   (let challenge = hashZ cv proofError
                          [serverPublicKeyBytes c, Marshal cv (curveG cv), Marshal cv c0,
                           resp_C1 rs, pof_Term1 fp, pof_Term2 fp, pof_Term3 fp, pof_Term4 fp];
                        blindA = SetBytes (BlindA fp);
                        blindB = SetBytes (BlindB fp)
                    in term1 + term2 + ScalarMultInt cv c1 challenge
                         = ScalarMultInt cv c0 blindA + ScalarMultInt cv hs0 blindB \<and>
                       term3 + term4
                         = ScalarMultInt cv (serverPublicKey c) blindA
                           + ScalarBaseMultInt cv blindB))) \<and>
             (err = Some (errors_New ''invalid public key'') \<longleftrightarrow>
                \<not> (\<exists>fp term1 term2 term3 term4.
                     ProofFail rs = Some fp \<and>
                     PointUnmarshal cv (pof_Term1 fp) = Inr term1 \<and>
                     PointUnmarshal cv (pof_Term2 fp) = Inr term2 \<and>
                     PointUnmarshal cv (pof_Term3 fp) = Inr term3 \<and>
                     PointUnmarshal cv (pof_Term4 fp) = Inr term4)) \<and>
             (\<forall>fp term1 term2 term3 term4.
                ProofFail rs = Some fp \<and>
                PointUnmarshal cv (pof_Term1 fp) = Inr term1 \<and>
                PointUnmarshal cv (pof_Term2 fp) = Inr term2 \<and>
                PointUnmarshal cv (pof_Term3 fp) = Inr term3 \<and>
                PointUnmarshal cv (pof_Term4 fp) = Inr term4 \<longrightarrow>
                (let challenge = hashZ cv proofError
                       [serverPublicKeyBytes c, Marshal cv (curveG cv), Marshal cv c0,
                        resp_C1 rs, pof_Term1 fp, pof_Term2 fp, pof_Term3 fp, pof_Term4 fp];
                     blindA = SetBytes (BlindA fp);
                     blindB = SetBytes (BlindB fp);
                     first = (term1 + term2 + ScalarMultInt cv c1 challenge
                         = ScalarMultInt cv c0 blindA + ScalarMultInt cv hs0 blindB);
                     second = (term3 + term4
                         = ScalarMultInt cv (serverPublicKey c) blindA
                           + ScalarBaseMultInt cv blindB)
                 in (err = Some (errors_New ''proof verification failed'') \<longleftrightarrow> \<not> first) \<and>
                    (err = Some (errors_New ''verification failed'')
                       \<longleftrightarrow> first \<and> \<not> second))))"
proof -
  let ?hc0 = "hashToPoint cv dhc0 [rec_NC r, password]"
  let ?hc1 = "hashToPoint cv dhc1 [rec_NC r, password]"
  let ?hs0 = "hashToPoint cv dhs0 [rec_NS r]"
  let ?c0 = "t0 + ScalarMultInt cv ?hc0 (gf_Neg cv (clientPrivateKey c))"
  have run: "CheckResponseAndDecrypt cv c password (Some r) (Some rs)
      = Inr (None, validateProofOfFail cv c rs ?c0 c1 ?hs0 ?hc0 ?hc1)"
    by (simp add: CheckResponseAndDecrypt_def assms Let_def)
  show ?thesis
    unfolding Let_def
  proof (intro conjI allI impI)
    show "CheckResponseAndDecrypt cv c password (Some r) (Some rs)
      = Inr (None, validateProofOfFail cv c rs ?c0 c1 ?hs0 ?hc0 ?hc1)"
      by (rule run)
  next
    fix fp term1 term2 term3 term4
    assume d: "ProofFail rs = Some fp \<and>
       PointUnmarshal cv (pof_Term1 fp) = Inr term1 \<and>
       PointUnmarshal cv (pof_Term2 fp) = Inr term2 \<and>
       PointUnmarshal cv (pof_Term3 fp) = Inr term3 \<and>
       PointUnmarshal cv (pof_Term4 fp) = Inr term4"
    note v = validateProofOfFail_decoded [where c = c and ?c0.0 = ?c0 and ?c1.0 = c1
        and ?hs0.0 = ?hs0 and ?hc0.0 = ?hc0 and ?hc1.0 = ?hc1, unfolded Let_def,
        OF d [THEN conjunct1] d [THEN conjunct2, THEN conjunct1]
        d [THEN conjunct2, THEN conjunct2, THEN conjunct1]
        d [THEN conjunct2, THEN conjunct2, THEN conjunct2, THEN conjunct1]
        d [THEN conjunct2, THEN conjunct2, THEN conjunct2, THEN conjunct2]]
    show "validateProofOfFail cv c rs ?c0 c1 ?hs0 ?hc0 ?hc1
        = Some (errors_New ''proof verification failed'') \<longleftrightarrow>
      \<not> (term1 + term2 + ScalarMultInt cv c1
          (hashZ cv proofError
            [serverPublicKeyBytes c, Marshal cv (curveG cv), Marshal cv ?c0, resp_C1 rs,
             pof_Term1 fp, pof_Term2 fp, pof_Term3 fp, pof_Term4 fp])
        = ScalarMultInt cv ?c0 (SetBytes (BlindA fp)) + ScalarMultInt cv ?hs0 (SetBytes (BlindB fp)))"
      unfolding v by simp
    show "validateProofOfFail cv c rs ?c0 c1 ?hs0 ?hc0 ?hc1
        = Some (errors_New ''verification failed'') \<longleftrightarrow>
      (term1 + term2 + ScalarMultInt cv c1
          (hashZ cv proofError
            [serverPublicKeyBytes c, Marshal cv (curveG cv), Marshal cv ?c0, resp_C1 rs,
             pof_Term1 fp, pof_Term2 fp, pof_Term3 fp, pof_Term4 fp])
        = ScalarMultInt cv ?c0 (SetBytes (BlindA fp)) + ScalarMultInt cv ?hs0 (SetBytes (BlindB fp))) \<and>
      \<not> (term3 + term4
        = ScalarMultInt cv (serverPublicKey c) (SetBytes (BlindA fp))
          + ScalarBaseMultInt cv (SetBytes (BlindB fp)))"
      unfolding v by simp
  next
    show "validateProofOfFail cv c rs ?c0 c1 ?hs0 ?hc0 ?hc1 = None \<longleftrightarrow>
      (\<exists>fp term1 term2 term3 term4.
         ProofFail rs = Some fp \<and>
         PointUnmarshal cv (pof_Term1 fp) = Inr term1 \<and>
         PointUnmarshal cv (pof_Term2 fp) = Inr term2 \<and>
         PointUnmarshal cv (pof_Term3 fp) = Inr term3 \<and>
         PointUnmarshal cv (pof_Term4 fp) = Inr term4 \<and>
         term1 + term2 + ScalarMultInt cv c1
           (hashZ cv proofError
             [serverPublicKeyBytes c, Marshal cv (curveG cv), Marshal cv ?c0, resp_C1 rs,
              pof_Term1 fp, pof_Term2 fp, pof_Term3 fp, pof_Term4 fp])
         = ScalarMultInt cv ?c0 (SetBytes (BlindA fp)) + ScalarMultInt cv ?hs0 (SetBytes (BlindB fp)) \<and>
         term3 + term4
         = ScalarMultInt cv (serverPublicKey c) (SetBytes (BlindA fp))
           + ScalarBaseMultInt cv (SetBytes (BlindB fp)))"
      by (rule validateProofOfFail_None_iff [unfolded Let_def])
  next
    show "validateProofOfFail cv c rs ?c0 c1 ?hs0 ?hc0 ?hc1
        = Some (errors_New ''invalid public key'') \<longleftrightarrow>
      \<not> (\<exists>fp term1 term2 term3 term4.
          ProofFail rs = Some fp \<and>
          PointUnmarshal cv (pof_Term1 fp) = Inr term1 \<and>
          PointUnmarshal cv (pof_Term2 fp) = Inr term2 \<and>
          PointUnmarshal cv (pof_Term3 fp) = Inr term3 \<and>
          PointUnmarshal cv (pof_Term4 fp) = Inr term4)"
      by (rule validateProofOfFail_invalid_iff)
  qed
qed

text \<open>The witness: the honest proof of failure of the attempt with "pw2", with its
  blindA changed from 8 to 9, is refused with "proof verification failed".\<close>

theorem CheckResponseAndDecrypt_Res_false_witness:
  "EnrollmentRecord_parse Z13
      (Some \<lparr>rec_NS = replicate 32 1, rec_NC = replicate 32 2, rec_T0 = [4, 6],
             rec_T1 = [4, 9]\<rparr>) = Inr (6, 9) \<and>
   PointUnmarshal Z13 [4, 9] = Inr 9 \<and>
   CheckResponseAndDecrypt Z13
      \<lparr>clientPrivateKey = 5, clientPrivateKeyBytes = [5], serverPublicKey = 3,
       serverPublicKeyBytes = [4, 3]\<rparr>
      [112, 119, 50]
      (Some \<lparr>rec_NS = replicate 32 1, rec_NC = replicate 32 2, rec_T0 = [4, 6],
             rec_T1 = [4, 9]\<rparr>)
      (Some \<lparr>Res = False, resp_C1 = [4, 9], ProofSuccess = None,
             ProofFail = Some \<lparr>pof_Term1 = [4, 4], pof_Term2 = [4, 3], pof_Term3 = [4, 9],
                                pof_Term4 = [4, 4], BlindA = [9], BlindB = [2]\<rparr>\<rparr>)
     = Inr (None, validateProofOfFail Z13
         \<lparr>clientPrivateKey = 5, clientPrivateKeyBytes = [5], serverPublicKey = 3,
          serverPublicKeyBytes = [4, 3]\<rparr>
         \<lparr>Res = False, resp_C1 = [4, 9], ProofSuccess = None,
          ProofFail = Some \<lparr>pof_Term1 = [4, 4], pof_Term2 = [4, 3], pof_Term3 = [4, 9],
                             pof_Term4 = [4, 4], BlindA = [9], BlindB = [2]\<rparr>\<rparr>
         10 9 (hashToPoint Z13 dhs0 [replicate 32 1])
         (hashToPoint Z13 dhc0 [replicate 32 2, [112, 119, 50]])
         (hashToPoint Z13 dhc1 [replicate 32 2, [112, 119, 50]])) \<and>
   validateProofOfFail Z13
      \<lparr>clientPrivateKey = 5, clientPrivateKeyBytes = [5], serverPublicKey = 3,
       serverPublicKeyBytes = [4, 3]\<rparr>
      \<lparr>Res = False, resp_C1 = [4, 9], ProofSuccess = None,
       ProofFail = Some \<lparr>pof_Term1 = [4, 4], pof_Term2 = [4, 3], pof_Term3 = [4, 9],
                          pof_Term4 = [4, 4], BlindA = [9], BlindB = [2]\<rparr>\<rparr>
      10 9 (hashToPoint Z13 dhs0 [replicate 32 1])
      (hashToPoint Z13 dhc0 [replicate 32 2, [112, 119, 50]])
      (hashToPoint Z13 dhc1 [replicate 32 2, [112, 119, 50]])
     = Some (errors_New ''proof verification failed'')"
proof -
  let ?r = "\<lparr>rec_NS = replicate 32 1, rec_NC = replicate 32 2, rec_T0 = [4, 6],
             rec_T1 = [4, 9]\<rparr>"
  let ?rs = "\<lparr>Res = False, resp_C1 = [4, 9], ProofSuccess = None,
       ProofFail = Some \<lparr>pof_Term1 = [4, 4], pof_Term2 = [4, 3], pof_Term3 = [4, 9],
                          pof_Term4 = [4, 4], BlindA = [9], BlindB = [2]\<rparr>\<rparr>"
  let ?c = "\<lparr>clientPrivateKey = 5, clientPrivateKeyBytes = [5], serverPublicKey = 3 :: 13,
             serverPublicKeyBytes = [4, 3]\<rparr>"
  have p: "EnrollmentRecord_parse Z13 (Some ?r) = Inr (6, 9)"
    by (simp add: EnrollmentRecord_parse_def Z13_fields)
  have u: "PointUnmarshal Z13 (resp_C1 ?rs) = Inr 9"
    by (simp add: Z13_fields)
  have f: "Res ?rs = False" by simp
  have c0: "6 + ScalarMultInt Z13 (hashToPoint Z13 dhc0 [rec_NC ?r, [112, 119, 50]])
      (gf_Neg Z13 (clientPrivateKey ?c)) = 10"
    by (simp add: Z13_eval)
  have v: "validateProofOfFail Z13 ?c ?rs 10 9 (hashToPoint Z13 dhs0 [replicate 32 1])
      (hashToPoint Z13 dhc0 [replicate 32 2, [112, 119, 50]])
      (hashToPoint Z13 dhc1 [replicate 32 2, [112, 119, 50]])
     = Some (errors_New ''proof verification failed'')"
    by (simp add: validateProofOfFail_def ProofOfFail_parse_def Z13_eval)
  from CheckResponseAndDecrypt_Res_false [OF p u f, of "[112, 119, 50]" ?c]
  have "CheckResponseAndDecrypt Z13 ?c [112, 119, 50] (Some ?r) (Some ?rs)
      = Inr (None, validateProofOfFail Z13 ?c ?rs 10 9 (hashToPoint Z13 dhs0 [replicate 32 1])
      (hashToPoint Z13 dhc0 [replicate 32 2, [112, 119, 50]])
      (hashToPoint Z13 dhc1 [replicate 32 2, [112, 119, 50]]))"
    unfolding Let_def c0 by simp
  with p u v show ?thesis by simp
qed

text \<open>The counterexample to C2 as stated: the honest response to the attempt with "pw2"
  has Res = false and a proof of failure that verifies, and CheckResponseAndDecrypt
  returns no key and no error.\<close>

theorem CheckResponseAndDecrypt_Res_false_counterexample:
  "Res \<lparr>Res = False, resp_C1 = [4, 9], ProofSuccess = None,
        ProofFail = Some \<lparr>pof_Term1 = [4, 4], pof_Term2 = [4, 3], pof_Term3 = [4, 9],
                           pof_Term4 = [4, 4], BlindA = [8], BlindB = [2]\<rparr>\<rparr> = False \<and>
   VerifyPassword Z13 [2, 4, 3, 3] (Some \<lparr>req_NS = replicate 32 1, req_C0 = [4, 10]\<rparr>)
       (draw 7) (draw 2) (draw 3) (draw 4)
     = Some (Some \<lparr>Res = False, resp_C1 = [4, 9], ProofSuccess = None,
                   ProofFail = Some \<lparr>pof_Term1 = [4, 4], pof_Term2 = [4, 3],
                                      pof_Term3 = [4, 9], pof_Term4 = [4, 4],
                                      BlindA = [8], BlindB = [2]\<rparr>\<rparr>, None) \<and>
   validateProofOfFail Z13
      \<lparr>clientPrivateKey = 5, clientPrivateKeyBytes = [5], serverPublicKey = 3,
       serverPublicKeyBytes = [4, 3]\<rparr>
      \<lparr>Res = False, resp_C1 = [4, 9], ProofSuccess = None,
       ProofFail = Some \<lparr>pof_Term1 = [4, 4], pof_Term2 = [4, 3], pof_Term3 = [4, 9],
                          pof_Term4 = [4, 4], BlindA = [8], BlindB = [2]\<rparr>\<rparr>
      10 9 (hashToPoint Z13 dhs0 [replicate 32 1])
      (hashToPoint Z13 dhc0 [replicate 32 2, [112, 119, 50]])
      (hashToPoint Z13 dhc1 [replicate 32 2, [112, 119, 50]]) = None \<and>
   CheckResponseAndDecrypt Z13
      \<lparr>clientPrivateKey = 5, clientPrivateKeyBytes = [5], serverPublicKey = 3,
       serverPublicKeyBytes = [4, 3]\<rparr>
      [112, 119, 50]
      (Some \<lparr>rec_NS = replicate 32 1, rec_NC = replicate 32 2, rec_T0 = [4, 6],
             rec_T1 = [4, 9]\<rparr>)
      (Some \<lparr>Res = False, resp_C1 = [4, 9], ProofSuccess = None,
             ProofFail = Some \<lparr>pof_Term1 = [4, 4], pof_Term2 = [4, 3], pof_Term3 = [4, 9],
                                pof_Term4 = [4, 4], BlindA = [8], BlindB = [2]\<rparr>\<rparr>)
     = Inr (None, None)"
  using Z13_VerifyPassword_wrong Z13_validateProofOfFail Z13_CheckResponseAndDecrypt_wrong
  by simp




end
